theory Spec2Isabelle
  imports Complex_Main
begin

section \<open>JavaScript values used by the proxy\<close>

text \<open>
  Times and durations are JavaScript numbers holding integral millisecond counts; they are
  modelled as \<open>int\<close>. A field that may be \<open>null\<close> or \<open>undefined\<close> is an \<open>option\<close>.
  JavaScript's truthiness of such a number (\<open>if (x)\<close>, \<open>x || y\<close>, \<open>x && y\<close>) is
  \<open>truthy\<close>: \<open>null\<close>, \<open>undefined\<close> and \<open>0\<close> are falsy.
\<close>

definition truthy :: "int option \<Rightarrow> bool" where
  "truthy v = (case v of None \<Rightarrow> False | Some n \<Rightarrow> n \<noteq> 0)"

section \<open>The account pool (src/account-manager.js)\<close>

text \<open>
  An account object, with the fields that the pool operations read or write.
  \<open>isInvalid\<close> is \<open>undefined\<close> (falsy) until \<open>markInvalid\<close> sets it; it is a \<open>bool\<close> here.
\<close>

record account =
  email :: string
  source :: string
  isRateLimited :: bool
  rateLimitResetTime :: "int option"
  isInvalid :: bool
  invalidReason :: "string option"
  invalidAt :: "int option"
  lastUsed :: "int option"

text \<open>
  The private state of \<open>AccountManager\<close>: \<open>#accounts\<close>, \<open>#currentIndex\<close> and
  \<open>#settings.cooldownDurationMs\<close>. The cursor is a natural number: \<open>initialize\<close> sets it from
  the stored \<open>activeIndex\<close> and \<open>pickNext\<close> only ever stores \<open>(idx + 1) % length\<close>.
  \<open>diskWrites\<close> counts the calls of \<open>writeFileSync\<close> made by \<open>saveToDisk\<close>.
\<close>

record pool =
  accounts :: "account list"
  currentIndex :: nat
  cooldownDurationMs :: "int option"
  diskWrites :: nat

definition saveToDisk :: "pool \<Rightarrow> pool" where
  "saveToDisk st = st\<lparr>diskWrites := Suc (diskWrites st)\<rparr>"

definition getAccountCount :: "pool \<Rightarrow> nat" where
  "getAccountCount st = length (accounts st)"

definition isAllRateLimited :: "pool \<Rightarrow> bool" where
  "isAllRateLimited st =
     (if length (accounts st) = 0 then True else list_all isRateLimited (accounts st))"

definition getAvailableAccounts :: "pool \<Rightarrow> account list" where
  "getAvailableAccounts st =
     filter (\<lambda>acc. \<not> isRateLimited acc \<and> \<not> isInvalid acc) (accounts st)"

text \<open>
  The test of the loop in \<open>clearExpiredLimits\<close>:
  \<open>account.isRateLimited && account.rateLimitResetTime && account.rateLimitResetTime <= now\<close>.
\<close>

definition limitExpired :: "int \<Rightarrow> account \<Rightarrow> bool" where
  "limitExpired now acc =
     (isRateLimited acc \<and> truthy (rateLimitResetTime acc) \<and>
      (case rateLimitResetTime acc of None \<Rightarrow> False | Some t \<Rightarrow> t \<le> now))"

definition clearExpired :: "int \<Rightarrow> account \<Rightarrow> account" where
  "clearExpired now acc =
     (if limitExpired now acc
      then acc\<lparr>isRateLimited := False, rateLimitResetTime := None\<rparr>
      else acc)"

text \<open>\<open>clearExpiredLimits\<close> returns the number of cleared accounts and the new state.\<close>

definition clearExpiredLimits :: "int \<Rightarrow> pool \<Rightarrow> nat \<times> pool" where
  "clearExpiredLimits now st =
     (let cleared = length (filter (limitExpired now) (accounts st));
          st1 = st\<lparr>accounts := map (clearExpired now) (accounts st)\<rparr>
      in (cleared, if cleared > 0 then saveToDisk st1 else st1))"

definition resetAllRateLimits :: "pool \<Rightarrow> pool" where
  "resetAllRateLimits st =
     st\<lparr>accounts :=
          map (\<lambda>acc. acc\<lparr>isRateLimited := False, rateLimitResetTime := None\<rparr>) (accounts st)\<rparr>"

text \<open>
  The \<open>for\<close> loop of \<open>pickNext\<close> over \<open>i = 0, ..., length - 1\<close>: the index of the first
  account from the cursor on that is neither rate-limited nor invalid.
\<close>

fun pickLoop :: "account list \<Rightarrow> nat \<Rightarrow> nat list \<Rightarrow> nat option" where
  "pickLoop accs cur [] = None"
| "pickLoop accs cur (i # rest) =
     (let idx = (cur + i) mod length accs in
      if \<not> isRateLimited (accs ! idx) \<and> \<not> isInvalid (accs ! idx) then Some idx
      else pickLoop accs cur rest)"

text \<open>
  \<open>pickNext\<close> at time \<open>now\<close>: the account returned (\<open>None\<close> for \<open>null\<close>) and the new state.
\<close>

definition pickNext :: "int \<Rightarrow> pool \<Rightarrow> account option \<times> pool" where
  "pickNext now st =
     (let st1 = snd (clearExpiredLimits now st) in
      if length (getAvailableAccounts st1) = 0 then (None, st1)
      else (case pickLoop (accounts st1) (currentIndex st1) [0..<length (accounts st1)] of
              None \<Rightarrow> (None, st1)
            | Some idx \<Rightarrow>
                (let acc = (accounts st1 ! idx)\<lparr>lastUsed := Some now\<rparr> in
                 (Some acc,
                  st1\<lparr>accounts := (accounts st1)[idx := acc],
                      currentIndex := (idx + 1) mod length (accounts st1)\<rparr>))))"

text \<open>
  \<open>markRateLimited(email, resetMs)\<close>. \<open>DEFAULT_COOLDOWN_MS\<close> is imported from
  \<open>constants.js\<close> and is a parameter here. The cooldown is
  \<open>resetMs || settings.cooldownDurationMs || DEFAULT_COOLDOWN_MS\<close>.
\<close>

definition cooldownMs :: "int \<Rightarrow> int option \<Rightarrow> pool \<Rightarrow> int" where
  "cooldownMs DEFAULT_COOLDOWN_MS resetMs st =
     (if truthy resetMs then the resetMs
      else if truthy (cooldownDurationMs st) then the (cooldownDurationMs st)
      else DEFAULT_COOLDOWN_MS)"

text \<open>The index of the account that \<open>accounts.find(a => a.email === email)\<close> returns.\<close>

fun findIndex :: "string \<Rightarrow> account list \<Rightarrow> nat option" where
  "findIndex e [] = None"
| "findIndex e (a # as) =
     (if email a = e then Some 0 else map_option Suc (findIndex e as))"

definition markRateLimited :: "int \<Rightarrow> int \<Rightarrow> string \<Rightarrow> int option \<Rightarrow> pool \<Rightarrow> pool" where
  "markRateLimited DEFAULT_COOLDOWN_MS now e resetMs st =
     (case findIndex e (accounts st) of
        None \<Rightarrow> st
      | Some i \<Rightarrow>
          saveToDisk (st\<lparr>accounts := (accounts st)
            [i := (accounts st ! i)\<lparr>isRateLimited := True,
                   rateLimitResetTime := Some (now + cooldownMs DEFAULT_COOLDOWN_MS resetMs st)\<rparr>]\<rparr>))"

definition markInvalid :: "int \<Rightarrow> string \<Rightarrow> string \<Rightarrow> pool \<Rightarrow> pool" where
  "markInvalid now e reason st =
     (case findIndex e (accounts st) of
        None \<Rightarrow> st
      | Some i \<Rightarrow>
          saveToDisk (st\<lparr>accounts := (accounts st)
            [i := (accounts st ! i)\<lparr>isInvalid := True, invalidReason := Some reason,
                   invalidAt := Some now\<rparr>]\<rparr>))"

text \<open>
  The loop of \<open>getMinWaitTimeMs\<close>; \<open>None\<close> stands for the initial \<open>Infinity\<close>.
\<close>

fun minWaitLoop :: "int \<Rightarrow> account list \<Rightarrow> int option \<Rightarrow> int option" where
  "minWaitLoop now [] minWait = minWait"
| "minWaitLoop now (acc # rest) minWait =
     (if truthy (rateLimitResetTime acc) then
        (let wait = the (rateLimitResetTime acc) - now in
         if wait > 0 \<and> (case minWait of None \<Rightarrow> True | Some m \<Rightarrow> wait < m)
         then minWaitLoop now rest (Some wait)
         else minWaitLoop now rest minWait)
      else minWaitLoop now rest minWait)"

definition getMinWaitTimeMs :: "int \<Rightarrow> int \<Rightarrow> pool \<Rightarrow> int" where
  "getMinWaitTimeMs DEFAULT_COOLDOWN_MS now st =
     (if \<not> isAllRateLimited st then 0
      else (case minWaitLoop now (accounts st) None of
              None \<Rightarrow> DEFAULT_COOLDOWN_MS
            | Some m \<Rightarrow> m))"

section \<open>Choosing the account of an attempt (src/cloudcode-client.js, sendMessage)\<close>

text \<open>
  The world of a request: the account manager, the clock that \<open>Date.now()\<close> reads, and the
  durations passed to \<open>sleep\<close> so far. \<open>sleep(ms)\<close> resolves after \<open>ms\<close> milliseconds: it
  advances the clock by \<open>ms\<close>; the other statements take no time.
\<close>

record world =
  manager :: pool
  clock :: int
  sleeps :: "int list"

definition sleep :: "int \<Rightarrow> world \<Rightarrow> world" where
  "sleep ms w = w\<lparr>clock := clock w + ms, sleeps := sleeps w @ [ms]\<rparr>"

text \<open>
  The errors thrown while an account is chosen. \<open>ResourceExhausted waitMs resetTime\<close> is
  \<open>RESOURCE_EXHAUSTED: Rate limited. Quota will reset after <waitMs>. Next available: <resetTime>\<close>,
  \<open>AllAccountsRateLimited n waitMs resetTime\<close> is
  \<open>RESOURCE_EXHAUSTED: All <n> accounts rate-limited. quota will reset after <waitMs>.
  Next available: <resetTime>\<close>, and \<open>NoAccountsAvailable\<close> is \<open>No accounts available\<close>.
  \<open>InvalidTimeValue\<close> is the \<open>RangeError: Invalid time value\<close> that
  \<open>new Date(t).toISOString()\<close> throws when \<open>t\<close> is not a time value of a \<open>Date\<close>,
  that is, when it is more than 8640000000000000 ms away from the epoch (\<open>validTime\<close>).
\<close>

datatype sendError =
    ResourceExhausted int int
  | AllAccountsRateLimited nat int int
  | NoAccountsAvailable
  | InvalidTimeValue

definition validTime :: "int \<Rightarrow> bool" where
  "validTime t = (\<bar>t\<bar> \<le> 8640000000000000)"

text \<open>
  The head of the body of the retry loop of \<open>sendMessage\<close> (and, word for word, of
  \<open>sendMessageStream\<close>): from \<open>let account = accountManager.pickNext()\<close> to the
  \<open>throw new Error('No accounts available')\<close>. The result is the error thrown or the
  account chosen, and the world then. \<open>resetTime\<close> is computed, with
  \<open>new Date(Date.now() + waitMs).toISOString()\<close>, before \<open>waitMs\<close> is compared with
  120000: when that time is not valid the \<open>RangeError\<close> is thrown there.
\<close>

definition chooseAccount :: "int \<Rightarrow> world \<Rightarrow> (sendError + account) \<times> world" where
  "chooseAccount DEFAULT_COOLDOWN_MS w =
     (case pickNext (clock w) (manager w) of
        (Some account, m1) \<Rightarrow> (Inr account, w\<lparr>manager := m1\<rparr>)
      | (None, m1) \<Rightarrow>
          (let w1 = w\<lparr>manager := m1\<rparr> in
           if isAllRateLimited m1 then
             (let waitMs = getMinWaitTimeMs DEFAULT_COOLDOWN_MS (clock w1) m1;
                  resetTime = clock w1 + waitMs
              in if \<not> validTime resetTime then (Inl InvalidTimeValue, w1)
                 else if waitMs > 120000 then (Inl (ResourceExhausted waitMs resetTime), w1)
                 else if getAccountCount m1 = 1 then
                   (let w2 = sleep waitMs w1;
                        m2 = snd (clearExpiredLimits (clock w2) (manager w2))
                    in (case pickNext (clock w2) m2 of
                          (Some account, m3) \<Rightarrow> (Inr account, w2\<lparr>manager := m3\<rparr>)
                        | (None, m3) \<Rightarrow> (Inl NoAccountsAvailable, w2\<lparr>manager := m3\<rparr>)))
                 else (Inl (AllAccountsRateLimited (getAccountCount m1) waitMs resetTime), w1))
           else (Inl NoAccountsAvailable, w1)))"

section \<open>The start of a client request (server.js, POST /v1/messages)\<close>

text \<open>
  After \<open>ensureInitialized\<close> the handler calls \<open>accountManager.resetAllRateLimits()\<close>
  ("Optimistic Retry"), before it reads the request body.
\<close>

definition requestStart :: "pool \<Rightarrow> pool" where
  "requestStart st = resetAllRateLimits st"

section \<open>Strings and regular expressions of JavaScript\<close>

text \<open>
  A string is the list of its code units; the code units here are below 256. The character
  classes are those of ECMAScript: \<open>\d\<close> is \<open>[0-9]\<close>, \<open>\w\<close> is \<open>[A-Za-z0-9_]\<close>, and
  \<open>\s\<close> is tab, line feed, vertical tab, form feed, carriage return, space and the
  no-break space. Under the flag \<open>i\<close> two characters match when their upper-case forms
  agree; the patterns below have ASCII letters only, for which that is \<open>canon\<close>.
\<close>

definition isDigit :: "char \<Rightarrow> bool" where
  "isDigit c = (48 \<le> (of_char c :: nat) \<and> (of_char c :: nat) \<le> 57)"

definition isUpper :: "char \<Rightarrow> bool" where
  "isUpper c = (65 \<le> (of_char c :: nat) \<and> (of_char c :: nat) \<le> 90)"

definition isLower :: "char \<Rightarrow> bool" where
  "isLower c = (97 \<le> (of_char c :: nat) \<and> (of_char c :: nat) \<le> 122)"

definition isWord :: "char \<Rightarrow> bool" where
  "isWord c = (isDigit c \<or> isUpper c \<or> isLower c \<or> c = CHR ''_'')"

definition isSpace :: "char \<Rightarrow> bool" where
  "isSpace c = ((of_char c :: nat) \<in> {9, 10, 11, 12, 13, 32, 160})"

definition canon :: "char \<Rightarrow> char" where
  "canon c = (if isLower c then char_of ((of_char c :: nat) - 32) else c)"

text \<open>\<open>s.includes(sub)\<close> and \<open>s.startsWith(sub)\<close>.\<close>

fun startsWith :: "string \<Rightarrow> string \<Rightarrow> bool" where
  "startsWith s [] = True"
| "startsWith [] (x # xs) = False"
| "startsWith (c # cs) (x # xs) = (c = x \<and> startsWith cs xs)"

fun str_includes :: "string \<Rightarrow> string \<Rightarrow> bool" where
  "str_includes [] sub = (sub = [])"
| "str_includes (c # cs) sub = (startsWith (c # cs) sub \<or> str_includes cs sub)"

text \<open>
  The regular expressions that the proxy uses, as syntax trees. \<open>Many n neg items\<close> is the
  greedy repetition of a character class, at least \<open>n\<close> times (\<open>*\<close> is \<open>n = 0\<close>, \<open>+\<close> is
  \<open>n = 1\<close>); \<open>Opt\<close> is the greedy \<open>?\<close>; \<open>Grp g\<close> is the capture group number \<open>g\<close>;
  \<open>WordEnd\<close> is \<open>\b\<close> where it stands right after a word character (as in \<open>s\b\<close>): it
  holds at the end of the input and before a character that is not a word character;
  \<open>NotAhead\<close> is the negative lookahead \<open>(?!...)\<close>.
\<close>

datatype citem = CChar char | CDigit | CSpace | CWord

datatype regex =
    Lit char
  | Cls bool "citem list"
  | Eps
  | Seq regex regex
  | Alt regex regex
  | Opt regex
  | Many nat bool "citem list"
  | Grp nat regex
  | WordEnd
  | NotAhead regex

fun itemHas :: "bool \<Rightarrow> citem \<Rightarrow> char \<Rightarrow> bool" where
  "itemHas ic (CChar x) c = (if ic then canon x = canon c else x = c)"
| "itemHas ic CDigit c = isDigit c"
| "itemHas ic CSpace c = isSpace c"
| "itemHas ic CWord c = isWord c"

definition inClass :: "bool \<Rightarrow> bool \<Rightarrow> citem list \<Rightarrow> char \<Rightarrow> bool" where
  "inClass ic neg items c = (list_ex (\<lambda>i. itemHas ic i c) items \<noteq> neg)"

text \<open>
  The backtracking matcher: \<open>rmatch r ic s caps\<close> lists, in the order in which a
  backtracking engine tries them, the ways in which \<open>r\<close> matches a prefix of \<open>s\<close>: the
  rest of the input and the captures. \<open>ic\<close> is the flag \<open>i\<close>.
\<close>

type_synonym captures = "(nat \<times> string) list"

fun rmatch :: "regex \<Rightarrow> bool \<Rightarrow> string \<Rightarrow> captures \<Rightarrow> (string \<times> captures) list" where
  "rmatch (Lit x) ic s caps =
     (case s of [] \<Rightarrow> []
      | c # cs \<Rightarrow> if itemHas ic (CChar x) c then [(cs, caps)] else [])"
| "rmatch (Cls neg items) ic s caps =
     (case s of [] \<Rightarrow> []
      | c # cs \<Rightarrow> if inClass ic neg items c then [(cs, caps)] else [])"
| "rmatch Eps ic s caps = [(s, caps)]"
| "rmatch (Seq r1 r2) ic s caps =
     concat (map (\<lambda>(rest, caps1). rmatch r2 ic rest caps1) (rmatch r1 ic s caps))"
| "rmatch (Alt r1 r2) ic s caps = rmatch r1 ic s caps @ rmatch r2 ic s caps"
| "rmatch (Opt r) ic s caps = rmatch r ic s caps @ [(s, caps)]"
| "rmatch (Many n neg items) ic s caps =
     (let k = length (takeWhile (inClass ic neg items) s)
      in map (\<lambda>j. (drop j s, caps)) (filter (\<lambda>j. n \<le> j) (rev [0..<Suc k])))"
| "rmatch (Grp g r) ic s caps =
     map (\<lambda>(rest, caps1). (rest, (g, take (length s - length rest) s) # caps1))
       (rmatch r ic s caps)"
| "rmatch WordEnd ic s caps =
     (case s of [] \<Rightarrow> [(s, caps)] | c # cs \<Rightarrow> if isWord c then [] else [(s, caps)])"
| "rmatch (NotAhead r) ic s caps = (if rmatch r ic s caps = [] then [(s, caps)] else [])"

text \<open>
  \<open>str.match(re)\<close> for a pattern without the flag \<open>g\<close>: the captures of the first match,
  trying the start positions from left to right; \<open>None\<close> is \<open>null\<close>. \<open>group m g\<close> is
  \<open>m[g]\<close>, \<open>None\<close> when the group took no part in the match.
\<close>

fun str_match :: "regex \<Rightarrow> bool \<Rightarrow> string \<Rightarrow> captures option" where
  "str_match r ic [] = (case rmatch r ic [] [] of [] \<Rightarrow> None | m # ms \<Rightarrow> Some (snd m))"
| "str_match r ic (c # cs) =
     (case rmatch r ic (c # cs) [] of [] \<Rightarrow> str_match r ic cs | m # ms \<Rightarrow> Some (snd m))"

definition group :: "captures \<Rightarrow> nat \<Rightarrow> string option" where
  "group m g = map_of m g"

text \<open>Pattern building: a sequence of patterns, a literal text, \<open>\d+\<close>.\<close>

definition seqs :: "regex list \<Rightarrow> regex" where
  "seqs rs = foldr Seq rs Eps"

definition lits :: "string \<Rightarrow> regex" where
  "lits s = seqs (map Lit s)"

definition digits1 :: regex where
  "digits1 = Many 1 False [CDigit]"

text \<open>
  Numbers. \<open>digitsValue\<close> is the value of a string of decimal digits. \<open>parseInt(s, 10)\<close>
  skips leading white space, reads a sign and the longest run of digits; \<open>None\<close> is
  \<open>NaN\<close>. \<open>showNat\<close> is the decimal text of a number, as a template literal prints it.
\<close>

definition digitsValue :: "string \<Rightarrow> nat" where
  "digitsValue ds = foldl (\<lambda>acc c. 10 * acc + ((of_char c :: nat) - 48)) 0 ds"

definition parseInt :: "string \<Rightarrow> int option" where
  "parseInt s =
     (let t = dropWhile isSpace s;
          neg = (case t of [] \<Rightarrow> False | c # cs \<Rightarrow> c = CHR ''-'');
          u = (case t of [] \<Rightarrow> [] | c # cs \<Rightarrow> if c = CHR ''-'' \<or> c = CHR ''+'' then cs else t);
          ds = takeWhile isDigit u
      in if ds = [] then None
         else Some (if neg then - int (digitsValue ds) else int (digitsValue ds)))"

fun showDigits :: "nat \<Rightarrow> nat \<Rightarrow> string \<Rightarrow> string" where
  "showDigits 0 n acc = acc"
| "showDigits (Suc fuel) n acc =
     (if n < 10 then char_of (48 + n) # acc
      else showDigits fuel (n div 10) (char_of (48 + n mod 10) # acc))"

definition showNat :: "nat \<Rightarrow> string" where
  "showNat n = showDigits (Suc n) n []"

section \<open>Error messages and the HTTP boundary (account-manager.js, cloudcode-client.js, server.js)\<close>

text \<open>
  \<open>formatDuration(ms)\<close>. \<open>Math.floor(x / y)\<close> is \<open>div\<close>; JavaScript's \<open>%\<close> takes the sign
  of the dividend (\<open>jsRem\<close>). \<open>showInt\<close> is the decimal text of an integer.
\<close>

definition jsRem :: "int \<Rightarrow> int \<Rightarrow> int" where
  "jsRem a b = sgn a * (\<bar>a\<bar> mod \<bar>b\<bar>)"

definition showInt :: "int \<Rightarrow> string" where
  "showInt n = (if n < 0 then CHR ''-'' # showNat (nat (- n)) else showNat (nat n))"

definition formatDuration :: "int \<Rightarrow> string" where
  "formatDuration ms =
     (let seconds = ms div 1000;
          hours = seconds div 3600;
          minutes = (jsRem seconds 3600) div 60;
          secs = jsRem seconds 60
      in if hours > 0 then showInt hours @ ''h'' @ showInt minutes @ ''m'' @ showInt secs @ ''s''
         else if minutes > 0 then showInt minutes @ ''m'' @ showInt secs @ ''s''
         else showInt secs @ ''s'')"

text \<open>
  The message of each error that \<open>chooseAccount\<close> throws. \<open>toISOString\<close> stands for
  \<open>new Date(t).toISOString()\<close>, the ISO text of a time, and is a parameter.
\<close>

fun sendErrorMessage :: "(int \<Rightarrow> string) \<Rightarrow> sendError \<Rightarrow> string" where
  "sendErrorMessage toISOString (ResourceExhausted waitMs resetTime) =
     ''RESOURCE_EXHAUSTED: Rate limited. Quota will reset after '' @ formatDuration waitMs @
     ''. Next available: '' @ toISOString resetTime"
| "sendErrorMessage toISOString (AllAccountsRateLimited n waitMs resetTime) =
     ''RESOURCE_EXHAUSTED: All '' @ showNat n @ '' accounts rate-limited. '' @
     ''quota will reset after '' @ formatDuration waitMs @
     ''. Next available: '' @ toISOString resetTime"
| "sendErrorMessage toISOString NoAccountsAvailable = ''No accounts available''"
| "sendErrorMessage toISOString InvalidTimeValue = ''Invalid time value''"

text \<open>
  The patterns of \<open>parseError\<close>:
  \<open>/quota will reset after (\d+h\d+m\d+s|\d+m\d+s|\d+s)/i\<close>,
  \<open>/"model":\s*"([^"]+)"/\<close> and \<open>/"message":"([^"]+)"/\<close>.
\<close>

definition quotaResetPattern :: regex where
  "quotaResetPattern =
     seqs [lits ''quota will reset after '',
           Grp 1 (Alt (seqs [digits1, Lit CHR ''h'', digits1, Lit CHR ''m'', digits1, Lit CHR ''s''])
                 (Alt (seqs [digits1, Lit CHR ''m'', digits1, Lit CHR ''s''])
                      (seqs [digits1, Lit CHR ''s''])))]"

definition modelPattern :: regex where
  "modelPattern =
     seqs [lits ''\"model\":'', Many 0 False [CSpace], Lit CHR 0x22,
           Grp 1 (Many 1 True [CChar (CHR 0x22)]), Lit CHR 0x22]"

definition messagePattern :: regex where
  "messagePattern =
     seqs [lits ''\"message\":\"'', Grp 1 (Many 1 True [CChar (CHR 0x22)]), Lit CHR 0x22]"

text \<open>
  \<open>parseError(error)\<close> of the server, on \<open>error.message\<close>: the error type, the HTTP status
  and the message for the client.
\<close>

record parsedError =
  errorType :: string
  statusCode :: nat
  errorMessage :: string

definition parseError :: "string \<Rightarrow> parsedError" where
  "parseError message =
     (if str_includes message ''401'' \<or> str_includes message ''UNAUTHENTICATED'' then
        \<lparr>errorType = ''authentication_error'', statusCode = 401,
         errorMessage = ''Authentication failed. Make sure Antigravity is running with a valid token.''\<rparr>
      else if str_includes message ''429'' \<or> str_includes message ''RESOURCE_EXHAUSTED''
              \<or> str_includes message ''QUOTA_EXHAUSTED'' then
        (let resetMatch = str_match quotaResetPattern True message;
             modelMatch = str_match modelPattern False message;
             model = (case modelMatch of
                        None \<Rightarrow> ''the model''
                      | Some m \<Rightarrow> (case group m 1 of None \<Rightarrow> ''the model'' | Some g \<Rightarrow> g))
         in \<lparr>errorType = ''invalid_request_error'', statusCode = 400,
             errorMessage =
               (case resetMatch of
                  Some m \<Rightarrow> ''You have exhausted your capacity on '' @ model @
                            ''. Quota will reset after '' @ the (group m 1) @ ''.''
                | None \<Rightarrow> ''You have exhausted your capacity on '' @ model @
                          ''. Please wait for your quota to reset.'')\<rparr>)
      else if str_includes message ''invalid_request_error''
              \<or> str_includes message ''INVALID_ARGUMENT'' then
        \<lparr>errorType = ''invalid_request_error'', statusCode = 400,
         errorMessage =
           (case str_match messagePattern False message of
              Some m \<Rightarrow> the (group m 1)
            | None \<Rightarrow> message)\<rparr>
      else if str_includes message ''All endpoints failed'' then
        \<lparr>errorType = ''api_error'', statusCode = 503,
         errorMessage = ''Unable to connect to Claude API. Check that Antigravity is running.''\<rparr>
      else if str_includes message ''PERMISSION_DENIED'' then
        \<lparr>errorType = ''permission_error'', statusCode = 403,
         errorMessage = ''Permission denied. Check your Antigravity license.''\<rparr>
      else \<lparr>errorType = ''api_error'', statusCode = 500, errorMessage = message\<rparr>)"

section \<open>The generation config of a translated request (src/format/request-converter.js)\<close>

text \<open>
  The fields of the Anthropic request that \<open>convertAnthropicToGoogle\<close> reads for
  \<open>generationConfig\<close>; \<open>budget_tokens\<close> is \<open>thinking?.budget_tokens\<close>.
  \<open>getModelFamily\<close> and \<open>isThinkingModel\<close> are imported from \<open>constants.js\<close>: their
  results for the model of the request are parameters, as is \<open>GEMINI_MAX_OUTPUT_TOKENS\<close>.
\<close>

datatype modelFamily = Claude | Gemini | UnknownFamily

record anthropicRequest =
  max_tokens :: "int option"
  temperature :: "real option"
  top_p :: "real option"
  top_k :: "int option"
  stop_sequences :: "string list option"
  budget_tokens :: "int option"

datatype thinkingConfig =
    ClaudeThinking "int option"
  | GeminiThinking int

record generationConfig =
  maxOutputTokens :: "int option"
  temperatureOut :: "real option"
  topP :: "real option"
  topK :: "int option"
  stopSequences :: "string list option"
  thinkingConfigOut :: "thinkingConfig option"

text \<open>
  \<open>googleRequest.generationConfig\<close> as \<open>convertAnthropicToGoogle\<close> returns it: the block
  "Generation config", the block "Enable thinking for thinking models" and the cap for
  Gemini. \<open>ClaudeThinking b\<close> is \<open>{include_thoughts: true, thinking_budget: b}\<close>,
  \<open>GeminiThinking b\<close> is \<open>{includeThoughts: true, thinkingBudget: b}\<close>.
\<close>

definition generationConfigOf ::
  "modelFamily \<Rightarrow> bool \<Rightarrow> int \<Rightarrow> anthropicRequest \<Rightarrow> generationConfig" where
  "generationConfigOf family isThinking GEMINI_MAX_OUTPUT_TOKENS req =
     (let gc0 = \<lparr>maxOutputTokens = (if truthy (max_tokens req) then max_tokens req else None),
                 temperatureOut = temperature req,
                 topP = top_p req,
                 topK = top_k req,
                 stopSequences =
                   (case stop_sequences req of
                      None \<Rightarrow> None
                    | Some ss \<Rightarrow> if length ss > 0 then Some ss else None),
                 thinkingConfigOut = None\<rparr>;
          gc1 =
            (if isThinking then
               (if family = Claude then
                  (let thinkingBudget = budget_tokens req in
                   if truthy thinkingBudget then
                     (let currentMaxTokens = maxOutputTokens gc0;
                          gcb = (if truthy currentMaxTokens
                                    \<and> the currentMaxTokens \<le> the thinkingBudget
                                 then gc0\<lparr>maxOutputTokens := Some (the thinkingBudget + 8192)\<rparr>
                                 else gc0)
                      in gcb\<lparr>thinkingConfigOut := Some (ClaudeThinking thinkingBudget)\<rparr>)
                   else gc0\<lparr>thinkingConfigOut := Some (ClaudeThinking None)\<rparr>)
                else if family = Gemini then
                  gc0\<lparr>thinkingConfigOut :=
                         Some (GeminiThinking (if truthy (budget_tokens req)
                                               then the (budget_tokens req) else 16000))\<rparr>
                else gc0)
             else gc0)
      in if family = Gemini
            \<and> (case maxOutputTokens gc1 of None \<Rightarrow> False
                | Some n \<Rightarrow> n > GEMINI_MAX_OUTPUT_TOKENS)
         then gc1\<lparr>maxOutputTokens := Some GEMINI_MAX_OUTPUT_TOKENS\<rparr>
         else gc1)"

section \<open>The rate-limit parser (src/cloudcode-client.js, parseResetTime)\<close>

text \<open>
  The value of the local variable \<open>resetMs\<close>: \<open>null\<close>, \<open>NaN\<close> or a number of
  milliseconds. \<open>null\<close>, \<open>NaN\<close> and \<open>0\<close> are falsy. \<open>resetNumber\<close> is what
  \<open>resetMs || ...\<close> in \<open>markRateLimited\<close> sees of such a value.
\<close>

datatype resetVal = Null | NaN | Ms int

fun truthyReset :: "resetVal \<Rightarrow> bool" where
  "truthyReset Null = False"
| "truthyReset NaN = False"
| "truthyReset (Ms n) = (n \<noteq> 0)"

fun resetNumber :: "resetVal \<Rightarrow> int option" where
  "resetNumber (Ms n) = Some n"
| "resetNumber Null = None"
| "resetNumber NaN = None"

text \<open>
  The first argument: a \<open>Response\<close>, whose headers are read with \<open>headers.get(name)\<close>
  (\<open>None\<close> is \<open>null\<close>), an \<open>Error\<close> with its message, or anything else.
\<close>

datatype responseOrError =
    Response "string \<Rightarrow> string option"
  | ErrorObject string
  | Neither

text \<open>
  \<open>parseFloat\<close> on a text of digits and dots (all that \<open>[\d\.]+\<close> can capture): the
  longest prefix \<open>digits\<close>, \<open>digits.digits\<close>, \<open>digits.\<close> or \<open>.digits\<close>, as the pair of the
  digits read as one number and the count of digits after the dot; \<open>None\<close> is \<open>NaN\<close>.
  \<open>ceilMillis\<close> is \<open>Math.ceil(x * 1000)\<close> of such a pair, computed on exact decimals (the
  rounding of binary floating point is not modelled).
\<close>

definition parseFloat :: "string \<Rightarrow> (nat \<times> nat) option" where
  "parseFloat s =
     (let ip = takeWhile isDigit s;
          r = dropWhile isDigit s;
          fp = (case r of [] \<Rightarrow> []
                | c # cs \<Rightarrow> if c = CHR ''.'' then takeWhile isDigit cs else [])
      in if ip = [] \<and> fp = [] then None
         else Some (digitsValue (ip @ fp), length fp))"

definition ceilMillis :: "nat \<times> nat \<Rightarrow> int" where
  "ceilMillis x = - ((- (int (fst x) * 1000)) div (10 ^ snd x))"

text \<open>
  The five patterns of the body scan, in the order of the source:
  \<open>/(?:retry[-_]?after[-_]?ms|retryDelay)[:\s"]+([\d\.]+)(?:s\b|s")/i\<close>,
  \<open>/(?:retry[-_]?after[-_]?ms|retryDelay)[:\s"]+(\d+)(?:\s*ms)?(?![\w.])/i\<close>,
  \<open>/retry\s+(?:after\s+)?(\d+)\s*(?:sec|s\b)/i\<close>,
  \<open>/(\d+)h(\d+)m(\d+)s|(\d+)m(\d+)s|(\d+)s/i\<close> and
  \<open>/reset[:\s"]+(\d{4}-\d{2}-\d{2}T[\d:.]+Z?)/i\<close>.
\<close>

definition retryKey :: regex where
  "retryKey =
     Alt (seqs [lits ''retry'', Opt (Cls False [CChar CHR ''-'', CChar CHR ''_'']),
                lits ''after'', Opt (Cls False [CChar CHR ''-'', CChar CHR ''_'']),
                lits ''ms''])
         (lits ''retryDelay'')"

definition separators :: regex where
  "separators = Many 1 False [CChar CHR '':'', CSpace, CChar (CHR 0x22)]"

definition secondsPattern :: regex where
  "secondsPattern =
     seqs [retryKey, separators, Grp 1 (Many 1 False [CDigit, CChar CHR ''.'']),
           Alt (Seq (Lit CHR ''s'') WordEnd) (Seq (Lit CHR ''s'') (Lit (CHR 0x22)))]"

definition millisPattern :: regex where
  "millisPattern =
     seqs [retryKey, separators, Grp 1 digits1,
           Opt (Seq (Many 0 False [CSpace]) (lits ''ms'')),
           NotAhead (Cls False [CWord, CChar CHR ''.''])]"

definition retrySecondsPattern :: regex where
  "retrySecondsPattern =
     seqs [lits ''retry'', Many 1 False [CSpace],
           Opt (Seq (lits ''after'') (Many 1 False [CSpace])),
           Grp 1 digits1, Many 0 False [CSpace],
           Alt (lits ''sec'') (Seq (Lit CHR ''s'') WordEnd)]"

definition durationPattern :: regex where
  "durationPattern =
     Alt (seqs [Grp 1 digits1, Lit CHR ''h'', Grp 2 digits1, Lit CHR ''m'',
                Grp 3 digits1, Lit CHR ''s''])
      (Alt (seqs [Grp 4 digits1, Lit CHR ''m'', Grp 5 digits1, Lit CHR ''s''])
           (seqs [Grp 6 digits1, Lit CHR ''s'']))"

definition isoResetPattern :: regex where
  "isoResetPattern =
     seqs [lits ''reset'', separators,
           Grp 1 (seqs [Cls False [CDigit], Cls False [CDigit], Cls False [CDigit],
                        Cls False [CDigit], Lit CHR ''-'',
                        Cls False [CDigit], Cls False [CDigit], Lit CHR ''-'',
                        Cls False [CDigit], Cls False [CDigit], Lit CHR ''T'',
                        Many 1 False [CDigit, CChar CHR '':'', CChar CHR ''.''],
                        Opt (Lit CHR ''Z'')])]"

text \<open>
  \<open>parseInt(m[g], 10)\<close> of a group that holds digits; \<open>0\<close> stands in where the group is
  absent, which the callers exclude.
\<close>

definition groupInt :: "captures \<Rightarrow> nat \<Rightarrow> int" where
  "groupInt m g =
     (case group m g of None \<Rightarrow> 0
      | Some t \<Rightarrow> (case parseInt t of None \<Rightarrow> 0 | Some n \<Rightarrow> n))"

text \<open>A string is truthy when it is not empty; an absent group (\<open>undefined\<close>) is falsy.\<close>

definition truthyString :: "string option \<Rightarrow> bool" where
  "truthyString v = (case v of None \<Rightarrow> False | Some s \<Rightarrow> s \<noteq> [])"

text \<open>
  The header blocks. \<open>dateParse\<close> stands for \<open>new Date(text).getTime()\<close> (\<open>None\<close> is
  \<open>NaN\<close>) and \<open>now\<close> for \<open>Date.now()\<close>; both are parameters. Each function takes the
  value of \<open>resetMs\<close> before its block and returns the value after it.
\<close>

definition retryAfterBlock ::
  "(string \<Rightarrow> int option) \<Rightarrow> int \<Rightarrow> (string \<Rightarrow> string option) \<Rightarrow> resetVal \<Rightarrow> resetVal" where
  "retryAfterBlock dateParse now headers resetMs =
     (let retryAfter = headers ''retry-after'' in
      if truthyString retryAfter then
        (case parseInt (the retryAfter) of
           Some seconds \<Rightarrow> Ms (seconds * 1000)
         | None \<Rightarrow>
             (case dateParse (the retryAfter) of
                None \<Rightarrow> resetMs
              | Some date \<Rightarrow> if date - now > 0 then Ms (date - now) else Null))
      else resetMs)"

definition ratelimitResetBlock ::
  "int \<Rightarrow> (string \<Rightarrow> string option) \<Rightarrow> resetVal \<Rightarrow> resetVal" where
  "ratelimitResetBlock now headers resetMs =
     (if \<not> truthyReset resetMs then
        (let ratelimitReset = headers ''x-ratelimit-reset'' in
         if truthyString ratelimitReset then
           (case parseInt (the ratelimitReset) of
              None \<Rightarrow> Null
            | Some seconds \<Rightarrow>
                if seconds * 1000 - now > 0 then Ms (seconds * 1000 - now) else Null)
         else resetMs)
      else resetMs)"

definition resetAfterBlock :: "(string \<Rightarrow> string option) \<Rightarrow> resetVal \<Rightarrow> resetVal" where
  "resetAfterBlock headers resetMs =
     (if \<not> truthyReset resetMs then
        (let resetAfter = headers ''x-ratelimit-reset-after'' in
         if truthyString resetAfter then
           (case parseInt (the resetAfter) of
              None \<Rightarrow> resetMs
            | Some seconds \<Rightarrow> if seconds > 0 then Ms (seconds * 1000) else resetMs)
         else resetMs)
      else resetMs)"

definition headerBlocks ::
  "(string \<Rightarrow> int option) \<Rightarrow> int \<Rightarrow> (string \<Rightarrow> string option) \<Rightarrow> resetVal" where
  "headerBlocks dateParse now headers =
     resetAfterBlock headers
       (ratelimitResetBlock now headers (retryAfterBlock dateParse now headers Null))"

text \<open>The blocks of the body scan, each from the value of \<open>resetMs\<close> before it.\<close>

definition secondsBlock :: "string \<Rightarrow> resetVal \<Rightarrow> resetVal" where
  "secondsBlock msg resetMs =
     (case str_match secondsPattern True msg of
        None \<Rightarrow> resetMs
      | Some m \<Rightarrow>
          (case parseFloat (the (group m 1)) of
             None \<Rightarrow> NaN
           | Some x \<Rightarrow> Ms (ceilMillis x)))"

definition millisBlock :: "string \<Rightarrow> resetVal \<Rightarrow> resetVal" where
  "millisBlock msg resetMs =
     (if \<not> truthyReset resetMs then
        (case str_match millisPattern True msg of
           None \<Rightarrow> resetMs
         | Some m \<Rightarrow> Ms (groupInt m 1))
      else resetMs)"

definition retrySecondsBlock :: "string \<Rightarrow> resetVal \<Rightarrow> resetVal" where
  "retrySecondsBlock msg resetMs =
     (if \<not> truthyReset resetMs then
        (case str_match retrySecondsPattern True msg of
           None \<Rightarrow> resetMs
         | Some m \<Rightarrow> Ms (groupInt m 1 * 1000))
      else resetMs)"

definition durationBlock :: "string \<Rightarrow> resetVal \<Rightarrow> resetVal" where
  "durationBlock msg resetMs =
     (if \<not> truthyReset resetMs then
        (case str_match durationPattern True msg of
           None \<Rightarrow> resetMs
         | Some m \<Rightarrow>
             if truthyString (group m 1) then
               Ms ((groupInt m 1 * 3600 + groupInt m 2 * 60 + groupInt m 3) * 1000)
             else if truthyString (group m 4) then
               Ms ((groupInt m 4 * 60 + groupInt m 5) * 1000)
             else if truthyString (group m 6) then Ms (groupInt m 6 * 1000)
             else resetMs)
      else resetMs)"

definition isoBlock :: "(string \<Rightarrow> int option) \<Rightarrow> int \<Rightarrow> string \<Rightarrow> resetVal \<Rightarrow> resetVal" where
  "isoBlock dateParse now msg resetMs =
     (if \<not> truthyReset resetMs then
        (case str_match isoResetPattern True msg of
           None \<Rightarrow> resetMs
         | Some m \<Rightarrow>
             (case dateParse (the (group m 1)) of
                None \<Rightarrow> resetMs
              | Some resetTime \<Rightarrow> if resetTime - now > 0 then Ms (resetTime - now) else Null))
      else resetMs)"

definition bodyBlocks ::
  "(string \<Rightarrow> int option) \<Rightarrow> int \<Rightarrow> string \<Rightarrow> resetVal \<Rightarrow> resetVal" where
  "bodyBlocks dateParse now msg resetMs =
     isoBlock dateParse now msg
       (durationBlock msg (retrySecondsBlock msg (millisBlock msg (secondsBlock msg resetMs))))"

text \<open>
  \<open>parseResetTime(responseOrError, errorText)\<close>: the header blocks when the argument has
  headers, then, if \<open>resetMs\<close> is still falsy, the body scan over the message of the
  error or over \<open>errorText\<close>.
\<close>

definition parseResetTime ::
  "(string \<Rightarrow> int option) \<Rightarrow> int \<Rightarrow> responseOrError \<Rightarrow> string \<Rightarrow> resetVal" where
  "parseResetTime dateParse now responseOrError errorText =
     (let resetMs = (case responseOrError of
                       Response headers \<Rightarrow> headerBlocks dateParse now headers
                     | ErrorObject message \<Rightarrow> Null
                     | Neither \<Rightarrow> Null)
      in if \<not> truthyReset resetMs then
           bodyBlocks dateParse now
             (case responseOrError of
                ErrorObject message \<Rightarrow> message
              | Response headers \<Rightarrow> errorText
              | Neither \<Rightarrow> errorText)
             resetMs
         else resetMs)"

section \<open>The streamer (src/cloudcode-client.js, streamSSEResponse)\<close>

text \<open>
  The input of the streamer is the sequence of \<open>data:\<close> lines of the upstream response
  that \<open>JSON.parse\<close> accepts (other lines are skipped), each reduced to what the loop
  reads of it: \<open>usageMetadata\<close>, the parts of the first candidate and its
  \<open>finishReason\<close>. A part has \<open>thought\<close> (is \<open>part.thought === true\<close>), \<open>text\<close>
  (\<open>None\<close> is \<open>undefined\<close>), \<open>thoughtSignature\<close> and \<open>functionCall\<close>; the arguments of
  a function call are held as their JSON text, \<open>JSON.stringify(args || {})\<close>.
\<close>

record functionCall =
  callId :: "string option"
  callName :: string
  callArgsJson :: string

record part =
  thought :: bool
  partText :: "string option"
  thoughtSignature :: "string option"
  functionCallOf :: "functionCall option"

record usageMetadata =
  promptTokenCount :: "int option"
  candidatesTokenCount :: "int option"

record chunk =
  usage :: "usageMetadata option"
  parts :: "part list"
  finishReason :: "string option"

text \<open>The events of the Anthropic stream, with the fields that vary along a stream.\<close>

datatype blockType = Thinking | TextBlock | ToolUse

datatype contentBlock =
    ThinkingContent
  | TextContent
  | ToolUseContent string string

datatype delta =
    ThinkingDelta string
  | TextDelta string
  | SignatureDelta string
  | InputJsonDelta string

datatype event =
    MessageStart int
  | ContentBlockStart nat contentBlock
  | ContentBlockDelta nat delta
  | ContentBlockStop nat
  | MessageDelta string int
  | MessageStop

text \<open>The local variables of \<open>streamSSEResponse\<close>.\<close>

record streamState =
  hasEmittedStart :: bool
  blockIndex :: nat
  currentBlockType :: "blockType option"
  currentThinkingSignature :: string
  inputTokens :: int
  outputTokens :: int
  stopReason :: string

definition initialStreamState :: streamState where
  "initialStreamState =
     \<lparr>hasEmittedStart = False, blockIndex = 0, currentBlockType = None,
      currentThinkingSignature = [], inputTokens = 0, outputTokens = 0,
      stopReason = ''end_turn''\<rparr>"

text \<open>
  The statements that close the block in progress, if there is one:
  \<open>content_block_stop\<close> and \<open>blockIndex++\<close>.
\<close>

definition closeBlock :: "streamState \<Rightarrow> event list \<times> streamState" where
  "closeBlock s =
     (if currentBlockType s \<noteq> None
      then ([ContentBlockStop (blockIndex s)], s\<lparr>blockIndex := blockIndex s + 1\<rparr>)
      else ([], s))"

text \<open>
  The \<open>signature_delta\<close> that is sent before a thinking block with a signature is left.
\<close>

definition flushSignature :: "streamState \<Rightarrow> event list \<times> streamState" where
  "flushSignature s =
     (if currentBlockType s = Some Thinking \<and> currentThinkingSignature s \<noteq> []
      then ([ContentBlockDelta (blockIndex s) (SignatureDelta (currentThinkingSignature s))],
            s\<lparr>currentThinkingSignature := []\<rparr>)
      else ([], s))"

text \<open>
  The body of \<open>for (const part of parts)\<close>: the events yielded for one part and the state
  afterwards. \<open>newToolId\<close> stands for the random \<open>toolu_...\<close> id of a function call
  that has none.
\<close>

definition processPart :: "string \<Rightarrow> streamState \<Rightarrow> part \<Rightarrow> event list \<times> streamState" where
  "processPart newToolId s p =
     (if thought p then
        (let text = (case partText p of None \<Rightarrow> [] | Some t \<Rightarrow> t);
             signature = (case thoughtSignature p of None \<Rightarrow> [] | Some g \<Rightarrow> g);
             (ev1, s1) =
               (if currentBlockType s \<noteq> Some Thinking then
                  (let (evc, sc) = closeBlock s;
                       so = sc\<lparr>currentBlockType := Some Thinking, currentThinkingSignature := []\<rparr>
                   in (evc @ [ContentBlockStart (blockIndex so) ThinkingContent], so))
                else ([], s));
             s2 = (if signature \<noteq> [] \<and> length signature \<ge> 50
                   then s1\<lparr>currentThinkingSignature := signature\<rparr> else s1)
         in (ev1 @ [ContentBlockDelta (blockIndex s2) (ThinkingDelta text)], s2))
      else if partText p \<noteq> None then
        (let text = the (partText p) in
         if text = [] \<or> list_all isSpace text then ([], s)
         else
           (let (ev1, s1) =
                  (if currentBlockType s \<noteq> Some TextBlock then
                     (let (evs, ss) = flushSignature s;
                          (evc, sc) = closeBlock ss;
                          so = sc\<lparr>currentBlockType := Some TextBlock\<rparr>
                      in (evs @ evc @ [ContentBlockStart (blockIndex so) TextContent], so))
                   else ([], s))
            in (ev1 @ [ContentBlockDelta (blockIndex s1) (TextDelta text)], s1)))
      else (case functionCallOf p of
              None \<Rightarrow> ([], s)
            | Some fc \<Rightarrow>
                (let (evs, ss) = flushSignature s;
                     (evc, sc) = closeBlock ss;
                     so = sc\<lparr>currentBlockType := Some ToolUse, stopReason := ''tool_use''\<rparr>;
                     toolId = (case callId fc of
                                 None \<Rightarrow> newToolId
                               | Some i \<Rightarrow> if i = [] then newToolId else i)
                 in (evs @ evc @
                     [ContentBlockStart (blockIndex so) (ToolUseContent toolId (callName fc)),
                      ContentBlockDelta (blockIndex so) (InputJsonDelta (callArgsJson fc))],
                     so))))"

fun processParts :: "string \<Rightarrow> streamState \<Rightarrow> part list \<Rightarrow> event list \<times> streamState" where
  "processParts newToolId s [] = ([], s)"
| "processParts newToolId s (p # ps) =
     (let (ev1, s1) = processPart newToolId s p;
          (ev2, s2) = processParts newToolId s1 ps
      in (ev1 @ ev2, s2))"

text \<open>
  The body of the loop over the lines, for one decoded line: the usage, \<open>message_start\<close>
  on the first line that has parts, the parts, the finish reason.
\<close>

definition processChunk :: "string \<Rightarrow> streamState \<Rightarrow> chunk \<Rightarrow> event list \<times> streamState" where
  "processChunk newToolId s c =
     (let s1 = (case usage c of
                  None \<Rightarrow> s
                | Some u \<Rightarrow>
                    s\<lparr>inputTokens := (if truthy (promptTokenCount u)
                                        then the (promptTokenCount u) else inputTokens s),
                      outputTokens := (if truthy (candidatesTokenCount u)
                                         then the (candidatesTokenCount u) else outputTokens s)\<rparr>);
          (ev0, s2) = (if \<not> hasEmittedStart s1 \<and> length (parts c) > 0
                       then ([MessageStart (inputTokens s1)], s1\<lparr>hasEmittedStart := True\<rparr>)
                       else ([], s1));
          (ev1, s3) = processParts newToolId s2 (parts c);
          s4 = (case finishReason c of
                  None \<Rightarrow> s3
                | Some r \<Rightarrow>
                    if r = ''MAX_TOKENS'' then s3\<lparr>stopReason := ''max_tokens''\<rparr>
                    else if r = ''STOP'' then s3\<lparr>stopReason := ''end_turn''\<rparr>
                    else s3)
      in (ev0 @ ev1, s4))"

fun processChunks :: "string \<Rightarrow> streamState \<Rightarrow> chunk list \<Rightarrow> event list \<times> streamState" where
  "processChunks newToolId s [] = ([], s)"
| "processChunks newToolId s (c # cs) =
     (let (ev1, s1) = processChunk newToolId s c;
          (ev2, s2) = processChunks newToolId s1 cs
      in (ev1 @ ev2, s2))"

text \<open>
  What follows the loop: the placeholder when nothing was started, or else the end of the
  block in progress; then \<open>message_delta\<close> and \<open>message_stop\<close>.
\<close>

definition finishStream :: "streamState \<Rightarrow> event list" where
  "finishStream s =
     (if \<not> hasEmittedStart s then
        [MessageStart (inputTokens s),
         ContentBlockStart 0 TextContent,
         ContentBlockDelta 0 (TextDelta ''[No response received from API]''),
         ContentBlockStop 0]
      else if currentBlockType s \<noteq> None then
        (if currentBlockType s = Some Thinking \<and> currentThinkingSignature s \<noteq> []
         then [ContentBlockDelta (blockIndex s) (SignatureDelta (currentThinkingSignature s))]
         else []) @ [ContentBlockStop (blockIndex s)]
      else [])
     @ [MessageDelta (stopReason s) (outputTokens s), MessageStop]"

text \<open>The events that \<open>streamSSEResponse\<close> yields for a stream that is read to its end.\<close>

definition streamSSEResponse :: "string \<Rightarrow> chunk list \<Rightarrow> event list" where
  "streamSSEResponse newToolId chunks =
     (let (ev, s) = processChunks newToolId initialStreamState chunks
      in ev @ finishStream s)"

text \<open>
  The grammar \<open>message_start (content_block_start delta* content_block_stop)* message_delta
  message_stop\<close> as an automaton over the events: \<open>grammarStep\<close> is its transition
  function (\<open>None\<close> where the event is not allowed), \<open>GDone\<close> its accepting state.
\<close>

datatype grammarState = GInit | GIdle | GOpen | GClosing | GDone

fun grammarStep :: "grammarState \<Rightarrow> event \<Rightarrow> grammarState option" where
  "grammarStep GInit (MessageStart n) = Some GIdle"
| "grammarStep GIdle (ContentBlockStart i b) = Some GOpen"
| "grammarStep GOpen (ContentBlockDelta i d) = Some GOpen"
| "grammarStep GOpen (ContentBlockStop i) = Some GIdle"
| "grammarStep GIdle (MessageDelta r n) = Some GClosing"
| "grammarStep GClosing MessageStop = Some GDone"
| "grammarStep g e = None"

fun grammarRun :: "grammarState \<Rightarrow> event list \<Rightarrow> grammarState option" where
  "grammarRun g [] = Some g"
| "grammarRun g (e # es) =
     (case grammarStep g e of None \<Rightarrow> None | Some g1 \<Rightarrow> grammarRun g1 es)"

definition matchesGrammar :: "event list \<Rightarrow> bool" where
  "matchesGrammar es = (grammarRun GInit es = Some GDone)"

text \<open>
  The state of the grammar that corresponds to a state of the streamer: before
  \<open>message_start\<close> the automaton is in \<open>GInit\<close>; afterwards it is inside a block exactly
  when \<open>currentBlockType\<close> is set. \<open>streamInvariant\<close> holds along every run: no block is
  in progress before \<open>message_start\<close>.
\<close>

definition blockGrammarState :: "streamState \<Rightarrow> grammarState" where
  "blockGrammarState s = (if currentBlockType s = None then GIdle else GOpen)"

definition streamGrammarState :: "streamState \<Rightarrow> grammarState" where
  "streamGrammarState s = (if \<not> hasEmittedStart s then GInit else blockGrammarState s)"

definition streamInvariant :: "streamState \<Rightarrow> bool" where
  "streamInvariant s = (hasEmittedStart s \<or> currentBlockType s = None)"

text \<open>
  The final output token count and stop reason of a stream, read off its lines: the
  last \<open>candidatesTokenCount\<close> that is not zero (0 when there is none); and the stop
  reason, \<open>end_turn\<close> at first, \<open>tool_use\<close> from a line that streams a function call,
  \<open>max_tokens\<close> or \<open>end_turn\<close> from a line whose finish reason is \<open>MAX_TOKENS\<close> or
  \<open>STOP\<close>. A part streams a function call when it is not a thought, has no text and has
  \<open>functionCall\<close>.
\<close>

definition isToolPart :: "part \<Rightarrow> bool" where
  "isToolPart p = (\<not> thought p \<and> partText p = None \<and> functionCallOf p \<noteq> None)"

fun finalOutputTokens :: "int \<Rightarrow> chunk list \<Rightarrow> int" where
  "finalOutputTokens n [] = n"
| "finalOutputTokens n (c # cs) =
     finalOutputTokens
       (case usage c of
          None \<Rightarrow> n
        | Some u \<Rightarrow> if truthy (candidatesTokenCount u) then the (candidatesTokenCount u) else n)
       cs"

fun finalStopReason :: "string \<Rightarrow> chunk list \<Rightarrow> string" where
  "finalStopReason r [] = r"
| "finalStopReason r (c # cs) =
     finalStopReason
       (if finishReason c = Some ''MAX_TOKENS'' then ''max_tokens''
        else if finishReason c = Some ''STOP'' then ''end_turn''
        else if list_ex isToolPart (parts c) then ''tool_use''
        else r)
       cs"

text \<open>A sample part with the given thought flag, text and signature, and no function call.\<close>

definition samplePart :: "bool \<Rightarrow> string option \<Rightarrow> string option \<Rightarrow> part" where
  "samplePart isThought t sg =
     \<lparr>thought = isThought, partText = t, thoughtSignature = sg, functionCallOf = None\<rparr>"

section \<open>Sample states\<close>

text \<open>
  Concrete accounts and pools on which the theorems below are instantiated: an OAuth
  account with the given e-mail, rate-limit flag, reset time and invalid flag, and a pool
  of such accounts with the cursor at 0 and no configured cooldown.
\<close>

definition sampleAccount :: "string \<Rightarrow> bool \<Rightarrow> int option \<Rightarrow> bool \<Rightarrow> account" where
  "sampleAccount e limited resetTime invalid =
     \<lparr>email = e, source = ''oauth'', isRateLimited = limited, rateLimitResetTime = resetTime,
      isInvalid = invalid, invalidReason = None, invalidAt = None, lastUsed = None\<rparr>"

definition samplePool :: "account list \<Rightarrow> pool" where
  "samplePool accs = \<lparr>accounts = accs, currentIndex = 0, cooldownDurationMs = None, diskWrites = 0\<rparr>"

section \<open>Theorems about the account pool\<close>

subsection \<open>Selection (claim C1)\<close>

lemma mod_cover: 
  fixes n :: nat assumes "j < n" shows "\<exists>i<n. (cur + i) mod n = j"
proof -
  let ?i = "(j + (n - cur mod n)) mod n"
  have "?i < n" using assms by simp
  moreover have "(cur + ?i) mod n = j"
  proof -
    have "(cur + ?i) mod n = (cur mod n + (j + (n - cur mod n))) mod n"
      by (simp add: mod_simps)
    also have "cur mod n + (j + (n - cur mod n)) = j + n" 
    proof -
      have "cur mod n < n" using assms by simp
      then show ?thesis by simp
    qed
    also have "(j + n) mod n = j" using assms by simp
    finally show ?thesis .
  qed
  ultimately show ?thesis by blast
qed

lemma pickLoop_Some:
  "pickLoop accs cur is = Some idx \<Longrightarrow> accs \<noteq> [] \<Longrightarrow>
     idx < length accs \<and> \<not> isRateLimited (accs ! idx) \<and> \<not> isInvalid (accs ! idx)"
  by (induction "is") (auto simp: Let_def split: if_splits)

lemma pickLoop_None:
  "pickLoop accs cur is = None \<Longrightarrow> i \<in> set is \<Longrightarrow>
     isRateLimited (accs ! ((cur + i) mod length accs)) \<or> isInvalid (accs ! ((cur + i) mod length accs))"
  by (induction "is") (auto simp: Let_def split: if_splits)

lemma pickLoop_full:
  assumes "j < length accs" "\<not> isRateLimited (accs ! j)" "\<not> isInvalid (accs ! j)"
  shows "\<exists>idx. pickLoop accs cur [0..<length accs] = Some idx"
proof (rule ccontr)
  assume "\<not> ?thesis"
  then have N: "pickLoop accs cur [0..<length accs] = None" by simp
  from mod_cover[OF assms(1), of cur] obtain i where i: "i < length accs" "(cur + i) mod length accs = j" by blast
  from pickLoop_None[OF N, of i] i assms show False by simp
qed

lemma accounts_clearExpiredLimits:
  "accounts (snd (clearExpiredLimits now st)) = map (clearExpired now) (accounts st)"
  by (simp add: clearExpiredLimits_def Let_def saveToDisk_def)

lemma isInvalid_clearExpired: "isInvalid (clearExpired now a) = isInvalid a"
  by (simp add: clearExpired_def)

lemma pickNext_Some_ex:
  assumes ex: "\<exists>a \<in> set (accounts st). \<not> isInvalid a \<and> \<not> isRateLimited (clearExpired now a)"
  shows "\<exists>i. i < length (accounts st) \<and>
         \<not> isInvalid (accounts st ! i) \<and> \<not> isRateLimited (clearExpired now (accounts st ! i)) \<and>
         fst (pickNext now st) = Some ((clearExpired now (accounts st ! i))\<lparr>lastUsed := Some now\<rparr>)"
proof -
  define accs where "accs = map (clearExpired now) (accounts st)"
  define st1 where "st1 = snd (clearExpiredLimits now st)"
  have A: "accounts st1 = accs" by (simp add: st1_def accs_def accounts_clearExpiredLimits)
  from ex obtain j where j: "j < length (accounts st)" "\<not> isInvalid (accounts st ! j)"
      "\<not> isRateLimited (clearExpired now (accounts st ! j))"
    by (auto simp: in_set_conv_nth)
  then have j': "j < length accs" "\<not> isRateLimited (accs ! j)" "\<not> isInvalid (accs ! j)"
    by (simp_all add: accs_def isInvalid_clearExpired)
  then have ne: "getAvailableAccounts st1 \<noteq> []"
    using nth_mem[OF j'(1)] by (auto simp: getAvailableAccounts_def A filter_empty_conv)
  from pickLoop_full[OF j'] obtain idx where idx: "pickLoop accs (currentIndex st1) [0..<length accs] = Some idx"
    by blast
  have "accs \<noteq> []" using j' by auto
  from pickLoop_Some[OF idx this] have ok: "idx < length accs" "\<not> isRateLimited (accs ! idx)" "\<not> isInvalid (accs ! idx)"
    by simp_all
  have "fst (pickNext now st) = Some ((accs ! idx)\<lparr>lastUsed := Some now\<rparr>)"
    using ne idx by (simp add: pickNext_def Let_def st1_def[symmetric] A)
  with ok show ?thesis by (auto simp: accs_def isInvalid_clearExpired intro!: exI[of _ idx])
qed

lemma pickNext_None_iff:
  "fst (pickNext now st) = None \<longleftrightarrow>
     \<not> (\<exists>a \<in> set (accounts st). \<not> isInvalid a \<and> \<not> isRateLimited (clearExpired now a))"
proof
  assume "fst (pickNext now st) = None"
  then show "\<not> (\<exists>a \<in> set (accounts st). \<not> isInvalid a \<and> \<not> isRateLimited (clearExpired now a))"
    using pickNext_Some_ex[of st now] by fastforce
next
  assume n: "\<not> (\<exists>a \<in> set (accounts st). \<not> isInvalid a \<and> \<not> isRateLimited (clearExpired now a))"
  have "getAvailableAccounts (snd (clearExpiredLimits now st)) = []"
    using n by (auto simp: getAvailableAccounts_def accounts_clearExpiredLimits filter_empty_conv
        isInvalid_clearExpired)
  then show "fst (pickNext now st) = None"
    by (simp add: pickNext_def Let_def)
qed



subsection \<open>Rate-limit marks (claims C2 and C10)\<close>

lemma findIndex_None_iff: "findIndex e xs = None \<longleftrightarrow> e \<notin> email ` set xs"
  by (induction xs) auto

lemma findIndex_Some: "findIndex e xs = Some i \<Longrightarrow> i < length xs \<and> email (xs ! i) = e"
  by (induction xs arbitrary: i) (auto split: if_splits)

lemma findIndex_update:
  "email b = email (xs ! i) \<Longrightarrow> i < length xs \<Longrightarrow> findIndex e (xs[i := b]) = findIndex e xs"
proof (induction xs arbitrary: i)
  case Nil then show ?case by simp
next
  case (Cons a xs)
  then show ?case by (cases i) auto
qed

text \<open>
  Counterexample to claim C2 as stated: the account is marked at time 1000 with a reset of 60 s, which
  sets \<open>rateLimitResetTime\<close> to 61000, and marked again one second later (inside a dedup
  window of 5 s) with the same reset: \<open>rateLimitResetTime\<close> becomes 62000.
\<close>

theorem markRateLimited_second_mark_counterexample:
  "rateLimitResetTime (accounts (markRateLimited 10000 1000 ''a@x'' (Some 60000)
       (samplePool [sampleAccount ''a@x'' False None False])) ! 0) = Some 61000 \<and>
   rateLimitResetTime (accounts (markRateLimited 10000 2000 ''a@x'' (Some 60000)
       (markRateLimited 10000 1000 ''a@x'' (Some 60000)
          (samplePool [sampleAccount ''a@x'' False None False]))) ! 0) = Some 62000 \<and>
   \<not> (the (rateLimitResetTime (accounts (markRateLimited 10000 2000 ''a@x'' (Some 60000)
            (markRateLimited 10000 1000 ''a@x'' (Some 60000)
               (samplePool [sampleAccount ''a@x'' False None False]))) ! 0))
        \<le> the (rateLimitResetTime (accounts (markRateLimited 10000 1000 ''a@x'' (Some 60000)
            (samplePool [sampleAccount ''a@x'' False None False])) ! 0)))"
  by (simp add: markRateLimited_def samplePool_def sampleAccount_def saveToDisk_def cooldownMs_def
      truthy_def)

text \<open>
  Claim C2, amended. \<open>markRateLimited\<close> has no dedup window: each call on an account of
  the pool overwrites \<open>rateLimitResetTime\<close> with the time of the call plus the cooldown of
  the call (\<open>resetMs || settings.cooldownDurationMs || DEFAULT_COOLDOWN_MS\<close>), whatever
  an earlier mark had set.
\<close>

theorem markRateLimited_overwrites:
  assumes "findIndex e (accounts st) = Some i"
  shows "rateLimitResetTime
           (accounts (markRateLimited D t2 e r2 (markRateLimited D t1 e r1 st)) ! i)
         = Some (t2 + cooldownMs D r2 st) \<and>
         rateLimitResetTime (accounts (markRateLimited D t1 e r1 st) ! i)
         = Some (t1 + cooldownMs D r1 st)"
proof -
  from findIndex_Some[OF assms] have i: "i < length (accounts st)" by simp
  define st1 where "st1 = markRateLimited D t1 e r1 st"
  have a1: "accounts st1 = (accounts st)[i := (accounts st ! i)\<lparr>isRateLimited := True,
                   rateLimitResetTime := Some (t1 + cooldownMs D r1 st)\<rparr>]"
    using assms by (simp add: st1_def markRateLimited_def saveToDisk_def)
  have f1: "findIndex e (accounts st1) = Some i"
    using assms i by (simp add: a1 findIndex_update)
  have c: "cooldownMs D r2 st1 = cooldownMs D r2 st"
    using assms by (simp add: st1_def markRateLimited_def saveToDisk_def cooldownMs_def)
  have i1: "i < length (accounts st1)" using i by (simp add: a1)
  have "rateLimitResetTime (accounts (markRateLimited D t2 e r2 st1) ! i) = Some (t2 + cooldownMs D r2 st)"
    using f1 i1 by (simp add: markRateLimited_def saveToDisk_def c)
  moreover have "rateLimitResetTime (accounts st1 ! i) = Some (t1 + cooldownMs D r1 st)"
    using i by (simp add: a1)
  ultimately show ?thesis by (simp add: st1_def)
qed

text \<open>
  Witness for claim C2: the theorem on one account: the second mark, at 2000 with no parsed reset, sets
  2000 plus the default cooldown of 10000.
\<close>

theorem markRateLimited_overwrites_witness:
  "findIndex ''a@x'' (accounts (samplePool [sampleAccount ''a@x'' False None False])) = Some 0 \<and>
   rateLimitResetTime (accounts (markRateLimited 10000 2000 ''a@x'' None
       (markRateLimited 10000 1000 ''a@x'' (Some 60000)
          (samplePool [sampleAccount ''a@x'' False None False]))) ! 0) = Some 12000"
proof -
  have h: "findIndex ''a@x'' (accounts (samplePool [sampleAccount ''a@x'' False None False])) = Some 0"
    by (simp add: samplePool_def sampleAccount_def)
  from markRateLimited_overwrites[OF h, of 10000 2000 None 1000 "Some 60000"] h
  show ?thesis by (simp add: cooldownMs_def truthy_def samplePool_def)
qed

text \<open>
  Claim C10. \<open>markRateLimited\<close> and \<open>markInvalid\<close> called with an e-mail that no account of
  the pool has return at once: the state afterwards is the state before, so every field of
  every account is unchanged and \<open>saveToDisk\<close> has not run (\<open>diskWrites\<close> is unchanged).
\<close>

theorem mark_unknown_email_noop:
  "e \<notin> email ` set (accounts st) \<Longrightarrow>
     markRateLimited DEFAULT_COOLDOWN_MS now e resetMs st = st \<and> markInvalid now e reason st = st"
proof -
  assume "e \<notin> email ` set (accounts st)"
  then have "findIndex e (accounts st) = None" by (simp add: findIndex_None_iff)
  then show ?thesis by (simp add: markRateLimited_def markInvalid_def)
qed

text \<open>Witness for claim C10: the theorem on a pool of one account and another e-mail.\<close>

theorem mark_unknown_email_noop_witness:
  "''c@x'' \<notin> email ` set (accounts (samplePool [sampleAccount ''a@x'' False None False])) \<and>
   markRateLimited 10000 1000 ''c@x'' (Some 60000) (samplePool [sampleAccount ''a@x'' False None False])
     = samplePool [sampleAccount ''a@x'' False None False] \<and>
   markInvalid 1000 ''c@x'' ''invalid_grant'' (samplePool [sampleAccount ''a@x'' False None False])
     = samplePool [sampleAccount ''a@x'' False None False]"
proof -
  have h: "''c@x'' \<notin> email ` set (accounts (samplePool [sampleAccount ''a@x'' False None False]))"
    by (simp add: samplePool_def sampleAccount_def)
  from mark_unknown_email_noop[OF h] h
  show ?thesis by simp
qed

subsection \<open>All accounts rate-limited (claim C3)\<close>

lemma minWaitLoop_fold:
  assumes "\<forall>a\<in>set xs. \<exists>t. rateLimitResetTime a = Some t \<and> now < t \<and> t \<noteq> 0"
  shows "minWaitLoop now xs (Some m0)
         = Some (fold min (map (\<lambda>a. the (rateLimitResetTime a) - now) xs) m0)"
  using assms
proof (induction xs arbitrary: m0)
  case Nil
  then show ?case by simp
next
  case (Cons a xs)
  then obtain t where t: "rateLimitResetTime a = Some t" "now < t" "t \<noteq> 0" by auto
  have IH: "\<And>m. minWaitLoop now xs (Some m)
         = Some (fold min (map (\<lambda>a. the (rateLimitResetTime a) - now) xs) m)"
    using Cons by simp
  show ?case
  proof (cases "t - now < m0")
    case True
    then have "min (t - now) m0 = t - now" by simp
    then show ?thesis using t True by (simp add: truthy_def IH)
  next
    case False
    then have "min (t - now) m0 = m0" by simp
    then show ?thesis using t False by (simp add: truthy_def IH)
  qed
qed

lemma minWaitLoop_Min:
  assumes "xs \<noteq> []" "\<forall>a\<in>set xs. \<exists>t. rateLimitResetTime a = Some t \<and> now < t \<and> t \<noteq> 0"
  shows "minWaitLoop now xs None = Some (Min ((\<lambda>a. the (rateLimitResetTime a) - now) ` set xs))"
proof -
  from assms(1) obtain a rest where xs: "xs = a # rest" by (cases xs) auto
  from assms(2) xs obtain t where t: "rateLimitResetTime a = Some t" "now < t" "t \<noteq> 0" by auto
  have r: "\<forall>a\<in>set rest. \<exists>t. rateLimitResetTime a = Some t \<and> now < t \<and> t \<noteq> 0"
    using assms(2) xs by simp
  have "minWaitLoop now xs None = minWaitLoop now rest (Some (t - now))"
    using t xs by (simp add: truthy_def)
  also have "\<dots> = Some (fold min (map (\<lambda>a. the (rateLimitResetTime a) - now) rest) (t - now))"
    by (rule minWaitLoop_fold[OF r])
  also have "fold min (map (\<lambda>a. the (rateLimitResetTime a) - now) rest) (t - now)
      = Min (set ((t - now) # map (\<lambda>a. the (rateLimitResetTime a) - now) rest))"
    by (simp only: Min.set_eq_fold)
  also have "set ((t - now) # map (\<lambda>a. the (rateLimitResetTime a) - now) rest)
      = (\<lambda>a. the (rateLimitResetTime a) - now) ` set xs"
    using t xs by simp
  finally show ?thesis .
qed

lemma clearExpiredLimits_none_expired:
  assumes "\<forall>a\<in>set (accounts st). \<not> limitExpired now a"
  shows "clearExpiredLimits now st = (0, st)"
proof -
  have "filter (limitExpired now) (accounts st) = []" using assms by (simp add: filter_empty_conv)
  moreover have "map (clearExpired now) (accounts st) = accounts st"
    using assms by (simp add: clearExpired_def map_idI)
  ultimately show ?thesis by (simp add: clearExpiredLimits_def)
qed

lemma pickNext_all_limited:
  assumes "\<forall>a\<in>set (accounts st). isRateLimited a \<and> \<not> limitExpired now a"
  shows "pickNext now st = (None, st)"
proof -
  have c: "clearExpiredLimits now st = (0, st)"
    using assms by (simp add: clearExpiredLimits_none_expired)
  have "getAvailableAccounts st = []"
    using assms by (simp add: getAvailableAccounts_def filter_empty_conv)
  then show ?thesis by (simp add: pickNext_def c)
qed

text \<open>
  When the soonest reset lies beyond the last time that a \<open>Date\<close> can hold,
  \<open>toISOString\<close> throws before the wait is compared with the ceiling: the attempt fails
  with the \<open>RangeError\<close>, whatever the number of accounts.
\<close>

lemma chooseAccount_invalid_reset_time:
  assumes ne: "accounts (manager w) \<noteq> []"
    and lim: "\<forall>a \<in> set (accounts (manager w)).
                isRateLimited a \<and> (\<exists>t. rateLimitResetTime a = Some t \<and> clock w < t)"
    and clk: "0 \<le> clock w"
    and m: "m = Min ((\<lambda>a. the (rateLimitResetTime a) - clock w) ` set (accounts (manager w)))"
    and far: "8640000000000000 < clock w + m"
  shows "chooseAccount D w = (Inl InvalidTimeValue, w)"
proof -
  let ?st = "manager w"
  have tr: "\<forall>a\<in>set (accounts ?st). \<exists>t. rateLimitResetTime a = Some t \<and> clock w < t \<and> t \<noteq> 0"
    using lim clk by fastforce
  have nexp: "\<forall>a\<in>set (accounts ?st). isRateLimited a \<and> \<not> limitExpired (clock w) a"
    using lim by (fastforce simp: limitExpired_def)
  have pn: "pickNext (clock w) ?st = (None, ?st)" by (rule pickNext_all_limited[OF nexp])
  have allr: "isAllRateLimited ?st" using lim by (simp add: isAllRateLimited_def list_all_iff)
  have mw: "getMinWaitTimeMs D (clock w) ?st = m"
    using allr minWaitLoop_Min[OF ne tr] by (simp add: getMinWaitTimeMs_def m)
  have nv: "\<not> validTime (clock w + m)" using far by (simp add: validTime_def)
  show ?thesis by (simp add: chooseAccount_def pn allr mw nv Let_def)
qed

text \<open>
  Claim C3. The all-rate-limited policy. Let every account of a non-empty pool be
  rate-limited with a reset time in the future that a \<open>Date\<close> can hold (at most
  8640000000000000 ms after the epoch), and let \<open>m\<close> be the least wait until a
  reset. If \<open>m\<close> exceeds 120000 ms the attempt fails at once with the
  \<open>RESOURCE_EXHAUSTED\<close> error that carries \<open>m\<close> and the reset time, and nothing has
  slept or changed. If \<open>m\<close> is within the ceiling and the pool has exactly one account,
  the client sleeps \<open>m\<close> (until the reset) and selects again: the account is returned
  with its limit cleared, unless it is invalid. With more than one account the attempt
  fails at once with the \<open>RESOURCE_EXHAUSTED\<close> error for all accounts, without sleeping.
\<close>

theorem all_rate_limited_policy:
  assumes ne: "accounts (manager w) \<noteq> []"
    and lim: "\<forall>a \<in> set (accounts (manager w)).
                isRateLimited a \<and>
                (\<exists>t. rateLimitResetTime a = Some t \<and> clock w < t \<and> t \<le> 8640000000000000)"
    and clk: "0 \<le> clock w"
    and m: "m = Min ((\<lambda>a. the (rateLimitResetTime a) - clock w) ` set (accounts (manager w)))"
  shows "(m > 120000 \<longrightarrow>
            chooseAccount D w = (Inl (ResourceExhausted m (clock w + m)), w)) \<and>
         (m \<le> 120000 \<and> length (accounts (manager w)) = 1 \<longrightarrow>
            sleeps (snd (chooseAccount D w)) = sleeps w @ [m] \<and>
            clock (snd (chooseAccount D w)) = clock w + m \<and>
            fst (chooseAccount D w) =
              (if isInvalid (hd (accounts (manager w))) then Inl NoAccountsAvailable
               else Inr ((hd (accounts (manager w)))\<lparr>isRateLimited := False,
                      rateLimitResetTime := None, lastUsed := Some (clock w + m)\<rparr>))) \<and>
         (m \<le> 120000 \<and> length (accounts (manager w)) > 1 \<longrightarrow>
            chooseAccount D w =
              (Inl (AllAccountsRateLimited (length (accounts (manager w))) m (clock w + m)), w))"
proof -
  let ?st = "manager w"
  have tr: "\<forall>a\<in>set (accounts ?st). \<exists>t. rateLimitResetTime a = Some t \<and> clock w < t \<and> t \<noteq> 0"
    using lim clk by fastforce
  have nexp: "\<forall>a\<in>set (accounts ?st). isRateLimited a \<and> \<not> limitExpired (clock w) a"
    using lim by (fastforce simp: limitExpired_def)
  have pn: "pickNext (clock w) ?st = (None, ?st)" by (rule pickNext_all_limited[OF nexp])
  have allr: "isAllRateLimited ?st" using lim by (simp add: isAllRateLimited_def list_all_iff)
  have mw: "getMinWaitTimeMs D (clock w) ?st = m"
    using allr minWaitLoop_Min[OF ne tr] by (simp add: getMinWaitTimeMs_def m)
  have w_id: "w\<lparr>manager := manager w\<rparr> = w" by simp
  have vt: "validTime (clock w + m)"
  proof -
    have "m \<in> (\<lambda>a. the (rateLimitResetTime a) - clock w) ` set (accounts ?st)"
      unfolding m using ne by (intro Min_in) simp_all
    then obtain a where a: "a \<in> set (accounts ?st)" "m = the (rateLimitResetTime a) - clock w"
      by blast
    from lim a(1) obtain t where "rateLimitResetTime a = Some t" "clock w < t"
      "t \<le> 8640000000000000" by blast
    then show ?thesis using a(2) clk by (simp add: validTime_def)
  qed
  show ?thesis
  proof (intro conjI impI)
    assume "120000 < m"
    then show "chooseAccount D w = (Inl (ResourceExhausted m (clock w + m)), w)"
      by (simp add: chooseAccount_def pn allr mw vt Let_def)
  next
    assume a: "m \<le> 120000 \<and> 1 < length (accounts ?st)"
    then show "chooseAccount D w =
              (Inl (AllAccountsRateLimited (length (accounts ?st)) m (clock w + m)), w)"
      by (simp add: chooseAccount_def pn allr mw vt Let_def getAccountCount_def)
  next
    assume a: "m \<le> 120000 \<and> length (accounts ?st) = 1"
    then obtain acc where accs: "accounts ?st = [acc]"
      by (cases "accounts ?st") auto
    from lim accs obtain t where t: "isRateLimited acc" "rateLimitResetTime acc = Some t" "clock w < t"
      by auto
    have t0: "t \<noteq> 0" using t clk by simp
    have mt: "m = t - clock w" using m accs t by simp
    define w2 where "w2 = sleep m w"
    have c2: "clock w2 = t" by (simp add: w2_def sleep_def mt)
    have exp: "limitExpired t acc" using t t0 by (simp add: limitExpired_def truthy_def)
    define m2 where "m2 = snd (clearExpiredLimits (clock w2) (manager w2))"
    have mg2: "manager w2 = manager w" by (simp add: w2_def sleep_def)
    have am2: "accounts m2 = [acc\<lparr>isRateLimited := False, rateLimitResetTime := None\<rparr>]"
      using exp by (simp add: m2_def accounts_clearExpiredLimits c2 mg2 accs clearExpired_def)
    have ch: "chooseAccount D w =
        (case pickNext t m2 of
           (Some account, m3) \<Rightarrow> (Inr account, w2\<lparr>manager := m3\<rparr>)
         | (None, m3) \<Rightarrow> (Inl NoAccountsAvailable, w2\<lparr>manager := m3\<rparr>))"
    proof -
      have m2t: "snd (clearExpiredLimits t (manager w2)) = m2" by (simp add: m2_def c2)
      show ?thesis
        using a by (simp add: chooseAccount_def pn allr mw vt Let_def getAccountCount_def
          w2_def[symmetric] c2 m2t)
    qed
    have sl: "sleeps (snd (chooseAccount D w)) = sleeps w @ [m]"
      and cl: "clock (snd (chooseAccount D w)) = clock w + m"
      by (simp_all add: ch w2_def sleep_def split: prod.splits option.splits)
    have res: "fst (chooseAccount D w) =
              (if isInvalid acc then Inl NoAccountsAvailable
               else Inr (acc\<lparr>isRateLimited := False,
                      rateLimitResetTime := None, lastUsed := Some (clock w + m)\<rparr>))"
    proof (cases "isInvalid acc")
      case True
      then have "fst (pickNext t m2) = None"
        by (simp add: pickNext_None_iff am2)
      then show ?thesis using True by (auto simp add: ch split: prod.splits option.splits)
    next
      case False
      then have "\<exists>a \<in> set (accounts m2). \<not> isInvalid a \<and> \<not> isRateLimited (clearExpired t a)"
        by (simp add: am2 clearExpired_def limitExpired_def)
      from pickNext_Some_ex[OF this]
      have "fst (pickNext t m2) = Some (acc\<lparr>isRateLimited := False,
                      rateLimitResetTime := None, lastUsed := Some t\<rparr>)"
        by (simp add: am2 clearExpired_def limitExpired_def)
      then show ?thesis using False mt by (auto simp add: ch split: prod.splits option.splits)
    qed
    show "sleeps (snd (chooseAccount D w)) = sleeps w @ [m]" by (rule sl)
    show "clock (snd (chooseAccount D w)) = clock w + m" by (rule cl)
    show "fst (chooseAccount D w) =
              (if isInvalid (hd (accounts ?st)) then Inl NoAccountsAvailable
               else Inr ((hd (accounts ?st))\<lparr>isRateLimited := False,
                      rateLimitResetTime := None, lastUsed := Some (clock w + m)\<rparr>))"
      using res by (simp add: accs)
  qed
qed

text \<open>
  Witness for claim C3: the theorem on three worlds at time 1000: one account limited for 3 minutes (the
  error at once), one account limited for 60 s (a sleep of 60000, then the account), and
  two accounts limited for 60 s and 30 s (the error at once).
\<close>

theorem all_rate_limited_policy_witness:
  "chooseAccount 10000
     \<lparr>manager = samplePool [sampleAccount ''a@x'' True (Some 181000) False],
      clock = 1000, sleeps = []\<rparr>
   = (Inl (ResourceExhausted 180000 181000),
      \<lparr>manager = samplePool [sampleAccount ''a@x'' True (Some 181000) False],
       clock = 1000, sleeps = []\<rparr>) \<and>
   sleeps (snd (chooseAccount 10000
     \<lparr>manager = samplePool [sampleAccount ''a@x'' True (Some 61000) False],
      clock = 1000, sleeps = []\<rparr>)) = [60000] \<and>
   fst (chooseAccount 10000
     \<lparr>manager = samplePool [sampleAccount ''a@x'' True (Some 61000) False],
      clock = 1000, sleeps = []\<rparr>)
   = Inr ((sampleAccount ''a@x'' False None False)\<lparr>lastUsed := Some 61000\<rparr>) \<and>
   chooseAccount 10000
     \<lparr>manager = samplePool [sampleAccount ''a@x'' True (Some 61000) False,
                             sampleAccount ''b@x'' True (Some 31000) False],
      clock = 1000, sleeps = []\<rparr>
   = (Inl (AllAccountsRateLimited 2 30000 31000),
      \<lparr>manager = samplePool [sampleAccount ''a@x'' True (Some 61000) False,
                             sampleAccount ''b@x'' True (Some 31000) False],
       clock = 1000, sleeps = []\<rparr>)"
proof -
  let ?w1 = "\<lparr>manager = samplePool [sampleAccount ''a@x'' True (Some 181000) False],
      clock = 1000, sleeps = []\<rparr>"
  let ?w2 = "\<lparr>manager = samplePool [sampleAccount ''a@x'' True (Some 61000) False],
      clock = 1000, sleeps = []\<rparr>"
  let ?w3 = "\<lparr>manager = samplePool [sampleAccount ''a@x'' True (Some 61000) False,
                             sampleAccount ''b@x'' True (Some 31000) False],
      clock = 1000, sleeps = []\<rparr>"
  have a1: "accounts (manager ?w1) \<noteq> []" by (simp add: samplePool_def)
  have b1: "\<forall>a \<in> set (accounts (manager ?w1)).
                isRateLimited a \<and>
                (\<exists>t. rateLimitResetTime a = Some t \<and> clock ?w1 < t \<and> t \<le> 8640000000000000)"
    by (simp add: samplePool_def sampleAccount_def)
  have c1: "0 \<le> clock ?w1" by simp
  have d1: "(180000::int) = Min ((\<lambda>a. the (rateLimitResetTime a) - clock ?w1) ` set (accounts (manager ?w1)))"
    by (simp add: samplePool_def sampleAccount_def)
  have r1: "chooseAccount 10000 ?w1 = (Inl (ResourceExhausted 180000 181000), ?w1)"
    using all_rate_limited_policy[OF a1 b1 c1 d1, of 10000] by simp
  have a2: "accounts (manager ?w2) \<noteq> []" by (simp add: samplePool_def)
  have b2: "\<forall>a \<in> set (accounts (manager ?w2)).
                isRateLimited a \<and>
                (\<exists>t. rateLimitResetTime a = Some t \<and> clock ?w2 < t \<and> t \<le> 8640000000000000)"
    by (simp add: samplePool_def sampleAccount_def)
  have c2: "0 \<le> clock ?w2" by simp
  have d2: "(60000::int) = Min ((\<lambda>a. the (rateLimitResetTime a) - clock ?w2) ` set (accounts (manager ?w2)))"
    by (simp add: samplePool_def sampleAccount_def)
  have l2: "length (accounts (manager ?w2)) = 1" by (simp add: samplePool_def)
  have r2: "sleeps (snd (chooseAccount 10000 ?w2)) = [60000]"
    and r2': "fst (chooseAccount 10000 ?w2)
       = Inr ((sampleAccount ''a@x'' False None False)\<lparr>lastUsed := Some 61000\<rparr>)"
    using all_rate_limited_policy[OF a2 b2 c2 d2, of 10000] l2
    by (simp_all add: samplePool_def sampleAccount_def)
  have a3: "accounts (manager ?w3) \<noteq> []" by (simp add: samplePool_def)
  have b3: "\<forall>a \<in> set (accounts (manager ?w3)).
                isRateLimited a \<and>
                (\<exists>t. rateLimitResetTime a = Some t \<and> clock ?w3 < t \<and> t \<le> 8640000000000000)"
    by (simp add: samplePool_def sampleAccount_def)
  have c3: "0 \<le> clock ?w3" by simp
  have d3: "(30000::int) = Min ((\<lambda>a. the (rateLimitResetTime a) - clock ?w3) ` set (accounts (manager ?w3)))"
    by (simp add: samplePool_def sampleAccount_def)
  have l3: "length (accounts (manager ?w3)) = 2" by (simp add: samplePool_def)
  have r3: "chooseAccount 10000 ?w3 = (Inl (AllAccountsRateLimited 2 30000 31000), ?w3)"
    using all_rate_limited_policy[OF a3 b3 c3 d3, of 10000] l3 by simp
  from r1 r2 r2' r3 show ?thesis by blast
qed

subsection \<open>The start of a request (claim C4)\<close>

text \<open>
  Counterexample to claim C4 as stated: an account rate-limited until 100000 is, at time 1000, not
  expired; after the start of a request it is no longer marked rate-limited, and the first
  selection of the request returns it.
\<close>

theorem requestStart_counterexample:
  "isRateLimited (accounts (samplePool [sampleAccount ''a@x'' True (Some 100000) False]) ! 0) \<and>
   \<not> limitExpired 1000 (accounts (samplePool [sampleAccount ''a@x'' True (Some 100000) False]) ! 0) \<and>
   \<not> isRateLimited (accounts (requestStart (samplePool [sampleAccount ''a@x'' True (Some 100000) False])) ! 0) \<and>
   fst (pickNext 1000 (requestStart (samplePool [sampleAccount ''a@x'' True (Some 100000) False])))
     = Some ((sampleAccount ''a@x'' False None False)\<lparr>lastUsed := Some 1000\<rparr>)"
  by (simp add: requestStart_def resetAllRateLimits_def samplePool_def sampleAccount_def
      limitExpired_def truthy_def pickNext_def clearExpiredLimits_def clearExpired_def
      getAvailableAccounts_def Let_def)

text \<open>
  Claim C4, amended. At the start of each client request every rate-limit entry is cleared,
  expired or not: each account keeps its other fields and has \<open>isRateLimited = false\<close>
  and \<open>rateLimitResetTime = null\<close>, so that the first selection of the request finds an
  account whenever some account is not invalid. Apart from that, an account whose
  \<open>rateLimitResetTime\<close> has passed is no longer rate-limited after the next read
  (\<open>clearExpiredLimits\<close>).
\<close>

theorem requestStart_clears_all:
  "length (accounts (requestStart st)) = length (accounts st) \<and>
   (\<forall>i < length (accounts st).
      \<not> isRateLimited (accounts (requestStart st) ! i) \<and>
      rateLimitResetTime (accounts (requestStart st) ! i) = None \<and>
      accounts (requestStart st) ! i
        = (accounts st ! i)\<lparr>isRateLimited := False, rateLimitResetTime := None\<rparr> \<and>
      (\<not> isInvalid (accounts st ! i) \<longrightarrow> fst (pickNext now (requestStart st)) \<noteq> None)) \<and>
   (\<forall>i < length (accounts st).
      limitExpired now (accounts st ! i) \<longrightarrow>
        \<not> isRateLimited (accounts (snd (clearExpiredLimits now st)) ! i))"
proof (intro conjI allI impI)
  show "length (accounts (requestStart st)) = length (accounts st)"
    by (simp add: requestStart_def resetAllRateLimits_def)
next
  fix i assume "i < length (accounts st)"
  then show "\<not> isRateLimited (accounts (requestStart st) ! i)"
    and "rateLimitResetTime (accounts (requestStart st) ! i) = None"
    and "accounts (requestStart st) ! i
        = (accounts st ! i)\<lparr>isRateLimited := False, rateLimitResetTime := None\<rparr>"
    by (simp_all add: requestStart_def resetAllRateLimits_def)
next
  fix i assume i: "i < length (accounts st)" and inv: "\<not> isInvalid (accounts st ! i)"
  let ?a = "accounts (requestStart st) ! i"
  have "?a \<in> set (accounts (requestStart st))"
    using i by (simp add: requestStart_def resetAllRateLimits_def)
  moreover have "\<not> isInvalid ?a \<and> \<not> isRateLimited (clearExpired now ?a)"
    using i inv by (simp add: requestStart_def resetAllRateLimits_def clearExpired_def limitExpired_def)
  ultimately have "\<exists>a \<in> set (accounts (requestStart st)). \<not> isInvalid a \<and> \<not> isRateLimited (clearExpired now a)"
    by blast
  then show "fst (pickNext now (requestStart st)) \<noteq> None"
    using pickNext_None_iff[of now "requestStart st"] by blast
next
  fix i assume "i < length (accounts st)" "limitExpired now (accounts st ! i)"
  then show "\<not> isRateLimited (accounts (snd (clearExpiredLimits now st)) ! i)"
    by (simp add: accounts_clearExpiredLimits clearExpired_def)
qed

text \<open>
  Witness for claim C4: the theorem on one account rate-limited until 100000: cleared by the start of a
  request at time 1000, and cleared by \<open>clearExpiredLimits\<close> at time 100000.
\<close>

theorem requestStart_clears_all_witness:
  "(0::nat) < length (accounts (samplePool [sampleAccount ''a@x'' True (Some 100000) False])) \<and>
   \<not> isInvalid (accounts (samplePool [sampleAccount ''a@x'' True (Some 100000) False]) ! 0) \<and>
   \<not> isRateLimited
       (accounts (requestStart (samplePool [sampleAccount ''a@x'' True (Some 100000) False])) ! 0) \<and>
   fst (pickNext 1000 (requestStart (samplePool [sampleAccount ''a@x'' True (Some 100000) False])))
     \<noteq> None \<and>
   limitExpired 100000 (accounts (samplePool [sampleAccount ''a@x'' True (Some 100000) False]) ! 0) \<and>
   \<not> isRateLimited (accounts (snd (clearExpiredLimits 100000
        (samplePool [sampleAccount ''a@x'' True (Some 100000) False]))) ! 0)"
proof -
  let ?P = "samplePool [sampleAccount ''a@x'' True (Some 100000) False]"
  have h1: "(0::nat) < length (accounts ?P)" by (simp add: samplePool_def)
  have h2: "\<not> isInvalid (accounts ?P ! 0)" by (simp add: samplePool_def sampleAccount_def)
  have h3: "limitExpired 100000 (accounts ?P ! 0)"
    by (simp add: samplePool_def sampleAccount_def limitExpired_def truthy_def)
  from requestStart_clears_all[of ?P 1000] h1 h2
  have a: "\<not> isRateLimited (accounts (requestStart ?P) ! 0)"
    and b: "fst (pickNext 1000 (requestStart ?P)) \<noteq> None" by blast+
  from requestStart_clears_all[of ?P 100000] h1 h3
  have c: "\<not> isRateLimited (accounts (snd (clearExpiredLimits 100000 ?P)) ! 0)" by blast
  from h1 h2 h3 a b c show ?thesis by blast
qed

section \<open>Theorems about the generation config\<close>

text \<open>
  Counterexample to claim C8 as stated. For a Claude thinking model with \<open>max_tokens = 4096\<close>: a
  budget of 1000 is set and is at most \<open>max_tokens\<close>, and \<open>maxOutputTokens\<close> stays 4096
  (it is not raised to 9192); a budget of 10000 is above \<open>max_tokens\<close>, and
  \<open>maxOutputTokens\<close> is raised to 18192 (it is not passed through).
\<close>

theorem thinking_budget_counterexample:
  "maxOutputTokens (generationConfigOf Claude True 16384
      \<lparr>max_tokens = Some 4096, temperature = None, top_p = None, top_k = None,
       stop_sequences = None, budget_tokens = Some 1000\<rparr>) = Some 4096 \<and>
   maxOutputTokens (generationConfigOf Claude True 16384
      \<lparr>max_tokens = Some 4096, temperature = None, top_p = None, top_k = None,
       stop_sequences = None, budget_tokens = Some 10000\<rparr>) = Some 18192 \<and>
   maxOutputTokens (generationConfigOf Claude True 16384
      \<lparr>max_tokens = Some 4096, temperature = None, top_p = None, top_k = None,
       stop_sequences = None, budget_tokens = Some 1000\<rparr>) \<noteq> Some (1000 + 8192) \<and>
   maxOutputTokens (generationConfigOf Claude True 16384
      \<lparr>max_tokens = Some 4096, temperature = None, top_p = None, top_k = None,
       stop_sequences = None, budget_tokens = Some 10000\<rparr>) \<noteq> Some 4096"
  by (simp add: generationConfigOf_def truthy_def)

text \<open>
  Claim C8, amended. For a Claude thinking model: if a thinking budget is set and
  \<open>max_tokens\<close> (set) is at most the budget, \<open>maxOutputTokens\<close> is the budget plus 8192;
  otherwise \<open>max_tokens\<close> is passed through unchanged (absent when it is not set).
\<close>

theorem thinking_budget_raises_max_tokens:
  assumes "family = Claude" and "isThinking"
  shows "maxOutputTokens (generationConfigOf family isThinking cap req) =
           (if truthy (budget_tokens req) \<and> truthy (max_tokens req)
               \<and> the (max_tokens req) \<le> the (budget_tokens req)
            then Some (the (budget_tokens req) + 8192)
            else if truthy (max_tokens req) then max_tokens req else None)"
  using assms by (auto simp: generationConfigOf_def Let_def truthy_def)

text \<open>
  Witness for claim C8: the theorem for \<open>max_tokens = 4096\<close>: with a budget of 4096 the result is 12288,
  with no budget it is 4096.
\<close>

theorem thinking_budget_raises_max_tokens_witness:
  "maxOutputTokens (generationConfigOf Claude True 16384
      \<lparr>max_tokens = Some 4096, temperature = None, top_p = None, top_k = None,
       stop_sequences = None, budget_tokens = Some 4096\<rparr>) = Some 12288 \<and>
   maxOutputTokens (generationConfigOf Claude True 16384
      \<lparr>max_tokens = Some 4096, temperature = None, top_p = None, top_k = None,
       stop_sequences = None, budget_tokens = None\<rparr>) = Some 4096"
proof -
  have a: "Claude = Claude" and b: "True" by simp_all
  show ?thesis
    using thinking_budget_raises_max_tokens[OF a b, of 16384
        "\<lparr>max_tokens = Some 4096, temperature = None, top_p = None, top_k = None,
       stop_sequences = None, budget_tokens = Some 4096\<rparr>"]
      thinking_budget_raises_max_tokens[OF a b, of 16384
        "\<lparr>max_tokens = Some 4096, temperature = None, top_p = None, top_k = None,
       stop_sequences = None, budget_tokens = None\<rparr>"]
    by (simp add: truthy_def)
qed

section \<open>Theorems about the HTTP boundary\<close>

text \<open>
  The message that \<open>chooseAccount\<close> throws for a wait of 3 minutes when the reset time
  is 2026-11-03T13:47:22.401Z, and one millisecond earlier.
\<close>

lemma capacity_message_401:
  "sendErrorMessage (\<lambda>t. ''2026-11-03T13:47:22.401Z'') (ResourceExhausted 180000 1793713642401)
   = ''RESOURCE_EXHAUSTED: Rate limited. Quota will reset after 3m0s. Next available: 2026-11-03T13:47:22.401Z''"
  by code_simp

lemma capacity_message_400:
  "sendErrorMessage (\<lambda>t. ''2026-11-03T13:47:22.400Z'') (ResourceExhausted 180000 1793713642400)
   = ''RESOURCE_EXHAUSTED: Rate limited. Quota will reset after 3m0s. Next available: 2026-11-03T13:47:22.400Z''"
  by code_simp

lemma parseError_401_text:
  "parseError ''RESOURCE_EXHAUSTED: Rate limited. Quota will reset after 3m0s. Next available: 2026-11-03T13:47:22.401Z''
   = \<lparr>errorType = ''authentication_error'', statusCode = 401,
       errorMessage = ''Authentication failed. Make sure Antigravity is running with a valid token.''\<rparr>"
  by code_simp

lemma parseError_400_text:
  "parseError ''RESOURCE_EXHAUSTED: Rate limited. Quota will reset after 3m0s. Next available: 2026-11-03T13:47:22.400Z''
   = \<lparr>errorType = ''invalid_request_error'', statusCode = 400,
       errorMessage = ''You have exhausted your capacity on the model. Quota will reset after 3m0s.''\<rparr>"
  by code_simp

text \<open>
  Claim C9 fails on the code. The \<open>RESOURCE_EXHAUSTED\<close> error that the client throws
  when its only account is rate-limited for 3 minutes carries the reset time; when that
  time is 2026-11-03T13:47:22.401Z the message contains \<open>401\<close>, and \<open>parseError\<close>, which
  tests for \<open>401\<close> first, answers with status 401 and \<open>authentication_error\<close>. The same
  error one millisecond earlier is mapped to status 400 and \<open>invalid_request_error\<close>
  with the reset duration, as the claim says.
\<close>

theorem parseError_capacity_timestamp_401:
  "parseError (sendErrorMessage (\<lambda>t. ''2026-11-03T13:47:22.401Z'')
                 (ResourceExhausted 180000 1793713642401))
   = \<lparr>errorType = ''authentication_error'', statusCode = 401,
       errorMessage = ''Authentication failed. Make sure Antigravity is running with a valid token.''\<rparr>
   \<and>
   parseError (sendErrorMessage (\<lambda>t. ''2026-11-03T13:47:22.400Z'')
                 (ResourceExhausted 180000 1793713642400))
   = \<lparr>errorType = ''invalid_request_error'', statusCode = 400,
       errorMessage = ''You have exhausted your capacity on the model. Quota will reset after 3m0s.''\<rparr>"
  by (simp only: capacity_message_401 capacity_message_400 parseError_401_text parseError_400_text)

section \<open>Theorems about the rate-limit parser\<close>








lemma parseInt_minus5: "parseInt ''-5'' = Some (- 5)"
  by code_simp

lemma parseInt_0: "parseInt ''0'' = Some 0"
  by code_simp

lemma retryAfter_stops:
  assumes "headers ''retry-after'' = Some s" "s \<noteq> []" "parseInt s = Some n" "n \<noteq> 0"
  shows "parseResetTime dateParse now (Response headers) body = Ms (n * 1000)"
  using assms
  by (simp add: parseResetTime_def headerBlocks_def retryAfterBlock_def ratelimitResetBlock_def
      resetAfterBlock_def truthyString_def)










lemma empty_body_blocks_zero:
  "secondsBlock [] (Ms 0) = Ms 0"
  "millisBlock [] (Ms 0) = Ms 0"
  "retrySecondsBlock [] (Ms 0) = Ms 0"
  "durationBlock [] (Ms 0) = Ms 0"
  by code_simp+

lemma empty_body_blocks_null:
  "secondsBlock [] Null = Null"
  "millisBlock [] Null = Null"
  "retrySecondsBlock [] Null = Null"
  "durationBlock [] Null = Null"
  by code_simp+

lemma empty_no_iso: "str_match isoResetPattern True [] = None"
  by code_simp

text \<open>
  Claim C6 fails on the code. A response with the header \<open>retry-after: -5\<close> makes
  \<open>parseResetTime\<close> return -5000, and \<open>markRateLimited\<close> at time 1000 with that value
  sets a reset time of -4000, in the past, instead of the default cooldown. With
  \<open>retry-after: 0\<close> and an empty body the result is the number 0, not \<open>null\<close>; it is
  falsy, so that the default cooldown of 10000 is applied (reset time 11000). The block
  for \<open>x-ratelimit-reset-after\<close> has the guard that the block for \<open>retry-after\<close> lacks:
  -5 there gives \<open>null\<close>.
\<close>

theorem parseResetTime_retry_after_not_positive:
  "parseResetTime dateParse now (Response (map_of [(''retry-after'', ''-5'')])) body = Ms (- 5000) \<and>
   rateLimitResetTime (accounts (markRateLimited 10000 1000 ''a@x''
        (resetNumber (parseResetTime dateParse now
           (Response (map_of [(''retry-after'', ''-5'')])) body))
        (samplePool [sampleAccount ''a@x'' False None False])) ! 0) = Some (- 4000) \<and>
   parseResetTime dateParse now (Response (map_of [(''retry-after'', ''0'')])) [] = Ms 0 \<and>
   rateLimitResetTime (accounts (markRateLimited 10000 1000 ''a@x''
        (resetNumber (parseResetTime dateParse now
           (Response (map_of [(''retry-after'', ''0'')])) []))
        (samplePool [sampleAccount ''a@x'' False None False])) ! 0) = Some 11000 \<and>
   parseResetTime dateParse now (Response (map_of [(''x-ratelimit-reset-after'', ''-5'')])) [] = Null"
proof -
  have n: "parseResetTime dateParse now (Response (map_of [(''retry-after'', ''-5'')])) body = Ms (- 5000)"
    using retryAfter_stops[of "map_of [(''retry-after'', ''-5'')]" "''-5''" "- 5" dateParse now body]
    by (simp add: parseInt_minus5)
  have z: "parseResetTime dateParse now (Response (map_of [(''retry-after'', ''0'')])) [] = Ms 0"
    by (simp add: parseResetTime_def headerBlocks_def retryAfterBlock_def ratelimitResetBlock_def
        resetAfterBlock_def truthyString_def parseInt_0 bodyBlocks_def empty_body_blocks_zero
        isoBlock_def empty_no_iso del: str_match.simps)
  have s: "parseResetTime dateParse now (Response (map_of [(''x-ratelimit-reset-after'', ''-5'')])) [] = Null"
    by (simp add: parseResetTime_def headerBlocks_def retryAfterBlock_def ratelimitResetBlock_def
        resetAfterBlock_def truthyString_def parseInt_minus5 bodyBlocks_def empty_body_blocks_null
        isoBlock_def empty_no_iso del: str_match.simps)
  have m1: "rateLimitResetTime (accounts (markRateLimited 10000 1000 ''a@x'' (Some (- 5000))
        (samplePool [sampleAccount ''a@x'' False None False])) ! 0) = Some (- 4000)"
    by (simp add: markRateLimited_def samplePool_def sampleAccount_def saveToDisk_def
        cooldownMs_def truthy_def)
  have m2: "rateLimitResetTime (accounts (markRateLimited 10000 1000 ''a@x'' (Some 0)
        (samplePool [sampleAccount ''a@x'' False None False])) ! 0) = Some 11000"
    by (simp add: markRateLimited_def samplePool_def sampleAccount_def saveToDisk_def
        cooldownMs_def truthy_def)
  show ?thesis
    by (simp only: n z s resetNumber.simps m1 m2 simp_thms)
qed

section \<open>Theorems about the streamer\<close>

lemma grammarRun_append:
  "grammarRun g (xs @ ys) = (case grammarRun g xs of None \<Rightarrow> None | Some g1 \<Rightarrow> grammarRun g1 ys)"
  by (induction xs arbitrary: g) (auto split: option.splits)

lemma grammarRun_appendI:
  "grammarRun g xs = Some g1 \<Longrightarrow> grammarRun g1 ys = r \<Longrightarrow> grammarRun g (xs @ ys) = r"
  by (simp add: grammarRun_append)

lemma processPart_grammar:
  "grammarRun (blockGrammarState s) (fst (processPart newToolId s p))
     = Some (blockGrammarState (snd (processPart newToolId s p)))"
  by (auto simp: processPart_def closeBlock_def flushSignature_def blockGrammarState_def Let_def
      split: option.splits prod.splits)

lemma processPart_started:
  "hasEmittedStart (snd (processPart newToolId s p)) = hasEmittedStart s"
  by (auto simp: processPart_def closeBlock_def flushSignature_def Let_def
      split: option.splits prod.splits)

lemma processPart_outputTokens:
  "outputTokens (snd (processPart newToolId s p)) = outputTokens s"
  by (auto simp: processPart_def closeBlock_def flushSignature_def Let_def
      split: option.splits prod.splits)

lemma processParts_grammar:
  "grammarRun (blockGrammarState s) (fst (processParts newToolId s ps))
     = Some (blockGrammarState (snd (processParts newToolId s ps)))"
proof (induction ps arbitrary: s)
  case Nil
  then show ?case by simp
next
  case (Cons p ps)
  obtain ev1 s1 where p1: "processPart newToolId s p = (ev1, s1)" by (cases "processPart newToolId s p")
  obtain ev2 s2 where p2: "processParts newToolId s1 ps = (ev2, s2)" by (cases "processParts newToolId s1 ps")
  have a: "grammarRun (blockGrammarState s) ev1 = Some (blockGrammarState s1)"
    using processPart_grammar[of s newToolId p] p1 by simp
  have b: "grammarRun (blockGrammarState s1) ev2 = Some (blockGrammarState s2)"
    using Cons.IH[of s1] p2 by simp
  show ?case using grammarRun_appendI[OF a b] by (simp add: p1 p2)
qed

lemma processParts_started:
  "hasEmittedStart (snd (processParts newToolId s ps)) = hasEmittedStart s"
proof (induction ps arbitrary: s)
  case Nil
  then show ?case by simp
next
  case (Cons p ps)
  obtain ev1 s1 where p1: "processPart newToolId s p = (ev1, s1)" by (cases "processPart newToolId s p")
  obtain ev2 s2 where p2: "processParts newToolId s1 ps = (ev2, s2)" by (cases "processParts newToolId s1 ps")
  have "hasEmittedStart s1 = hasEmittedStart s" using processPart_started[of newToolId s p] p1 by simp
  moreover have "hasEmittedStart s2 = hasEmittedStart s1" using Cons.IH[of s1] p2 by simp
  ultimately show ?case by (simp add: p1 p2)
qed

lemma processParts_outputTokens:
  "outputTokens (snd (processParts newToolId s ps)) = outputTokens s"
proof (induction ps arbitrary: s)
  case Nil
  then show ?case by simp
next
  case (Cons p ps)
  obtain ev1 s1 where p1: "processPart newToolId s p = (ev1, s1)" by (cases "processPart newToolId s p")
  obtain ev2 s2 where p2: "processParts newToolId s1 ps = (ev2, s2)" by (cases "processParts newToolId s1 ps")
  have "outputTokens s1 = outputTokens s" using processPart_outputTokens[of newToolId s p] p1 by simp
  moreover have "outputTokens s2 = outputTokens s1" using Cons.IH[of s1] p2 by simp
  ultimately show ?case by (simp add: p1 p2)
qed

lemma processChunk_grammar:
  assumes "streamInvariant s"
  shows "grammarRun (streamGrammarState s) (fst (processChunk newToolId s c))
           = Some (streamGrammarState (snd (processChunk newToolId s c)))
         \<and> streamInvariant (snd (processChunk newToolId s c))"
proof -
  define s1 where "s1 = (case usage c of
                  None \<Rightarrow> s
                | Some u \<Rightarrow>
                    s\<lparr>inputTokens := (if truthy (promptTokenCount u)
                                        then the (promptTokenCount u) else inputTokens s),
                      outputTokens := (if truthy (candidatesTokenCount u)
                                         then the (candidatesTokenCount u) else outputTokens s)\<rparr>)"
  have s1h: "hasEmittedStart s1 = hasEmittedStart s" "currentBlockType s1 = currentBlockType s"
    by (simp_all add: s1_def split: option.splits)
  define start where "start = (\<not> hasEmittedStart s1 \<and> length (parts c) > 0)"
  define ev0 where "ev0 = (if start then [MessageStart (inputTokens s1)] else [])"
  define s2 where "s2 = (if start then s1\<lparr>hasEmittedStart := True\<rparr> else s1)"
  obtain ev1 s3 where p: "processParts newToolId s2 (parts c) = (ev1, s3)"
    by (cases "processParts newToolId s2 (parts c)")
  define s4 where "s4 = (case finishReason c of
                  None \<Rightarrow> s3
                | Some r \<Rightarrow>
                    if r = ''MAX_TOKENS'' then s3\<lparr>stopReason := ''max_tokens''\<rparr>
                    else if r = ''STOP'' then s3\<lparr>stopReason := ''end_turn''\<rparr>
                    else s3)"
  have pc: "processChunk newToolId s c = (ev0 @ ev1, s4)"
  proof (cases start)
    case True
    then have c: "\<not> hasEmittedStart s1 \<and> length (parts c) > 0" by (simp add: start_def)
    have p': "processParts newToolId (s1\<lparr>hasEmittedStart := True\<rparr>) (parts c) = (ev1, s3)"
      using p True by (simp add: s2_def)
    show ?thesis using c True
      by (simp add: processChunk_def Let_def s1_def[symmetric] p' ev0_def s4_def)
  next
    case False
    then have c: "\<not> (\<not> hasEmittedStart s1 \<and> length (parts c) > 0)" by (simp add: start_def)
    have p': "processParts newToolId s1 (parts c) = (ev1, s3)"
      using p False by (simp add: s2_def)
    show ?thesis using c False
      by (auto simp add: processChunk_def Let_def s1_def[symmetric] p' ev0_def s4_def)
  qed
  have s4h: "hasEmittedStart s4 = hasEmittedStart s3" "currentBlockType s4 = currentBlockType s3"
    by (simp_all add: s4_def split: option.splits)
  have s3h: "hasEmittedStart s3 = hasEmittedStart s2"
    using processParts_started[of newToolId s2 "parts c"] p by simp
  have g3: "grammarRun (blockGrammarState s2) ev1 = Some (blockGrammarState s3)"
    using processParts_grammar[of s2 newToolId "parts c"] p by simp
  show ?thesis
  proof (cases "hasEmittedStart s")
    case True
    then have ns: "\<not> start" by (simp add: start_def s1h)
    then have e: "ev0 = []" "s2 = s1" by (simp_all add: ev0_def s2_def)
    have "blockGrammarState s1 = blockGrammarState s"
      by (simp add: blockGrammarState_def s1h)
    then show ?thesis using True g3 e s1h s3h s4h
      by (simp add: pc streamGrammarState_def streamInvariant_def blockGrammarState_def)
  next
    case False
    then have none: "currentBlockType s = None" using assms by (simp add: streamInvariant_def)
    show ?thesis
    proof (cases "parts c")
      case Nil
      then have ns: "\<not> start" by (simp add: start_def)
      then have e: "ev0 = []" "s2 = s1" by (simp_all add: ev0_def s2_def)
      have "ev1 = []" "s3 = s1" using p Nil e by simp_all
      then show ?thesis using False none e s1h s4h
        by (simp add: pc streamGrammarState_def streamInvariant_def)
    next
      case (Cons x xs)
      then have st: "start" using False by (simp add: start_def s1h)
      then have e: "ev0 = [MessageStart (inputTokens s1)]" "s2 = s1\<lparr>hasEmittedStart := True\<rparr>"
        by (simp_all add: ev0_def s2_def)
      have b2: "blockGrammarState s2 = GIdle"
        using none by (simp add: e blockGrammarState_def s1h)
      have h3: "hasEmittedStart s3" using s3h e by simp
      have "grammarRun GInit (ev0 @ ev1) = Some (blockGrammarState s3)"
        using g3 b2 by (simp add: e)
      then show ?thesis using False h3 s4h
        by (simp add: pc streamGrammarState_def streamInvariant_def blockGrammarState_def)
    qed
  qed
qed

lemma processChunks_grammar:
  assumes "streamInvariant s"
  shows "grammarRun (streamGrammarState s) (fst (processChunks newToolId s cs))
           = Some (streamGrammarState (snd (processChunks newToolId s cs)))
         \<and> streamInvariant (snd (processChunks newToolId s cs))"
  using assms
proof (induction cs arbitrary: s)
  case Nil
  then show ?case by simp
next
  case (Cons c cs)
  obtain ev1 s1 where p1: "processChunk newToolId s c = (ev1, s1)" by (cases "processChunk newToolId s c")
  obtain ev2 s2 where p2: "processChunks newToolId s1 cs = (ev2, s2)" by (cases "processChunks newToolId s1 cs")
  from processChunk_grammar[OF Cons.prems, of newToolId c] p1
  have a: "grammarRun (streamGrammarState s) ev1 = Some (streamGrammarState s1)"
    and i1: "streamInvariant s1" by simp_all
  from Cons.IH[OF i1] p2
  have b: "grammarRun (streamGrammarState s1) ev2 = Some (streamGrammarState s2)"
    and i2: "streamInvariant s2" by simp_all
  show ?case using grammarRun_appendI[OF a b] i2 by (simp add: p1 p2)
qed

lemma finishStream_grammar:
  assumes "streamInvariant s"
  shows "grammarRun (streamGrammarState s) (finishStream s) = Some GDone"
  using assms
  by (auto simp: finishStream_def streamGrammarState_def streamInvariant_def blockGrammarState_def)

lemma streamSSEResponse_grammar: "matchesGrammar (streamSSEResponse newToolId chunks)"
proof -
  obtain ev s where p: "processChunks newToolId initialStreamState chunks = (ev, s)"
    by (cases "processChunks newToolId initialStreamState chunks")
  have i0: "streamInvariant initialStreamState"
    by (simp add: streamInvariant_def initialStreamState_def)
  have g0: "streamGrammarState initialStreamState = GInit"
    by (simp add: streamGrammarState_def initialStreamState_def)
  from processChunks_grammar[OF i0, of newToolId chunks] p g0
  have a: "grammarRun GInit ev = Some (streamGrammarState s)" and i: "streamInvariant s"
    by simp_all
  from grammarRun_appendI[OF a finishStream_grammar[OF i]]
  show ?thesis by (simp add: matchesGrammar_def streamSSEResponse_def p)
qed

lemma processPart_stopReason:
  "stopReason (snd (processPart newToolId s p))
     = (if isToolPart p then ''tool_use'' else stopReason s)"
  by (auto simp: processPart_def closeBlock_def flushSignature_def Let_def isToolPart_def
      split: option.splits prod.splits)

lemma processParts_stopReason:
  "stopReason (snd (processParts newToolId s ps))
     = (if list_ex isToolPart ps then ''tool_use'' else stopReason s)"
proof (induction ps arbitrary: s)
  case Nil
  then show ?case by simp
next
  case (Cons p ps)
  obtain ev1 s1 where p1: "processPart newToolId s p = (ev1, s1)" by (cases "processPart newToolId s p")
  obtain ev2 s2 where p2: "processParts newToolId s1 ps = (ev2, s2)" by (cases "processParts newToolId s1 ps")
  have a: "stopReason s1 = (if isToolPart p then ''tool_use'' else stopReason s)"
    using processPart_stopReason[of newToolId s p] p1 by simp
  have b: "stopReason s2 = (if list_ex isToolPart ps then ''tool_use'' else stopReason s1)"
    using Cons.IH[of s1] p2 by simp
  show ?case using a b by (simp add: p1 p2)
qed

lemma processChunk_final:
  "outputTokens (snd (processChunk newToolId s c)) = finalOutputTokens (outputTokens s) [c] \<and>
   stopReason (snd (processChunk newToolId s c)) = finalStopReason (stopReason s) [c]"
proof -
  define s1 where "s1 = (case usage c of
                  None \<Rightarrow> s
                | Some u \<Rightarrow>
                    s\<lparr>inputTokens := (if truthy (promptTokenCount u)
                                        then the (promptTokenCount u) else inputTokens s),
                      outputTokens := (if truthy (candidatesTokenCount u)
                                         then the (candidatesTokenCount u) else outputTokens s)\<rparr>)"
  define s2 where "s2 = (if \<not> hasEmittedStart s1 \<and> length (parts c) > 0
                         then s1\<lparr>hasEmittedStart := True\<rparr> else s1)"
  obtain ev1 s3 where p: "processParts newToolId s2 (parts c) = (ev1, s3)"
    by (cases "processParts newToolId s2 (parts c)")
  define s4 where "s4 = (case finishReason c of
                  None \<Rightarrow> s3
                | Some r \<Rightarrow>
                    if r = ''MAX_TOKENS'' then s3\<lparr>stopReason := ''max_tokens''\<rparr>
                    else if r = ''STOP'' then s3\<lparr>stopReason := ''end_turn''\<rparr>
                    else s3)"
  have pc: "snd (processChunk newToolId s c) = s4"
    using p by (auto simp add: processChunk_def Let_def s1_def[symmetric] s2_def s4_def
        split: prod.splits)
  have o1: "outputTokens s1 = finalOutputTokens (outputTokens s) [c]"
    by (simp add: s1_def split: option.splits)
  have r1: "stopReason s1 = stopReason s" by (simp add: s1_def split: option.splits)
  have o2: "outputTokens s2 = outputTokens s1" and r2: "stopReason s2 = stopReason s1"
    by (simp_all add: s2_def)
  have o3: "outputTokens s3 = outputTokens s2"
    using processParts_outputTokens[of newToolId s2 "parts c"] p by simp
  have r3: "stopReason s3 = (if list_ex isToolPart (parts c) then ''tool_use'' else stopReason s2)"
    using processParts_stopReason[of newToolId s2 "parts c"] p by simp
  have o4: "outputTokens s4 = outputTokens s3" by (simp add: s4_def split: option.splits)
  have r4: "stopReason s4 = finalStopReason (stopReason s) [c]"
    using r3 r2 r1 by (auto simp add: s4_def split: option.splits)
  show ?thesis using o1 o2 o3 o4 r4 by (simp only: pc)
qed

lemma processChunks_final:
  "outputTokens (snd (processChunks newToolId s cs)) = finalOutputTokens (outputTokens s) cs \<and>
   stopReason (snd (processChunks newToolId s cs)) = finalStopReason (stopReason s) cs"
proof (induction cs arbitrary: s)
  case Nil
  then show ?case by simp
next
  case (Cons c cs)
  obtain ev1 s1 where p1: "processChunk newToolId s c = (ev1, s1)" by (cases "processChunk newToolId s c")
  obtain ev2 s2 where p2: "processChunks newToolId s1 cs = (ev2, s2)" by (cases "processChunks newToolId s1 cs")
  from processChunk_final[of newToolId s c] p1
  have a: "outputTokens s1 = finalOutputTokens (outputTokens s) [c]"
    "stopReason s1 = finalStopReason (stopReason s) [c]" by simp_all
  from Cons.IH[of s1] p2
  have b: "outputTokens s2 = finalOutputTokens (outputTokens s1) cs"
    "stopReason s2 = finalStopReason (stopReason s1) cs" by simp_all
  show ?case using a b by (simp add: p1 p2)
qed

lemma processChunk_no_parts:
  assumes "parts c = []"
  shows "fst (processChunk newToolId s c) = [] \<and>
         hasEmittedStart (snd (processChunk newToolId s c)) = hasEmittedStart s"
  using assms by (simp add: processChunk_def Let_def split: option.splits)

lemma processChunks_no_parts:
  assumes "\<forall>c \<in> set cs. parts c = []"
  shows "fst (processChunks newToolId s cs) = [] \<and>
         hasEmittedStart (snd (processChunks newToolId s cs)) = hasEmittedStart s"
  using assms
proof (induction cs arbitrary: s)
  case Nil
  then show ?case by simp
next
  case (Cons c cs)
  obtain ev1 s1 where p1: "processChunk newToolId s c = (ev1, s1)" by (cases "processChunk newToolId s c")
  obtain ev2 s2 where p2: "processChunks newToolId s1 cs = (ev2, s2)" by (cases "processChunks newToolId s1 cs")
  have pc: "parts c = []" using Cons.prems by simp
  from processChunk_no_parts[OF pc, of newToolId s] p1
  have a: "ev1 = []" "hasEmittedStart s1 = hasEmittedStart s" by simp_all
  have "\<forall>c \<in> set cs. parts c = []" using Cons.prems by simp
  from Cons.IH[OF this, of s1] p2
  have b: "ev2 = []" "hasEmittedStart s2 = hasEmittedStart s1" by simp_all
  show ?case using a b by (simp add: p1 p2)
qed

text \<open>
  Claim C7. For every sequence of decoded lines, the events that the streamer yields match
  the grammar \<open>message_start (content_block_start delta* content_block_stop)*
  message_delta message_stop\<close>; the events end with the \<open>message_delta\<close> that carries
  the final stop reason and the final output token count, and \<open>message_stop\<close>; and when
  no line has any part, the stream is \<open>message_start\<close>, one text block whose only delta is
  the marker \<open>[No response received from API]\<close>, \<open>message_delta\<close> and \<open>message_stop\<close>.
\<close>

theorem streamSSEResponse_event_order:
  "matchesGrammar (streamSSEResponse newToolId chunks) \<and>
   (\<exists>body. streamSSEResponse newToolId chunks
        = body @ [MessageDelta (finalStopReason ''end_turn'' chunks) (finalOutputTokens 0 chunks),
                  MessageStop]) \<and>
   ((\<forall>c \<in> set chunks. parts c = []) \<longrightarrow>
      (\<exists>n. streamSSEResponse newToolId chunks
        = [MessageStart n,
           ContentBlockStart 0 TextContent,
           ContentBlockDelta 0 (TextDelta ''[No response received from API]''),
           ContentBlockStop 0,
           MessageDelta (finalStopReason ''end_turn'' chunks) (finalOutputTokens 0 chunks),
           MessageStop]))"
proof -
  obtain ev s where p: "processChunks newToolId initialStreamState chunks = (ev, s)"
    by (cases "processChunks newToolId initialStreamState chunks")
  from processChunks_final[of newToolId initialStreamState chunks] p
  have fin: "outputTokens s = finalOutputTokens 0 chunks"
    "stopReason s = finalStopReason ''end_turn'' chunks"
    by (simp_all add: initialStreamState_def)
  have tail: "\<exists>body. streamSSEResponse newToolId chunks
        = body @ [MessageDelta (finalStopReason ''end_turn'' chunks) (finalOutputTokens 0 chunks),
                  MessageStop]"
    by (simp add: streamSSEResponse_def p finishStream_def fin)
  have empty: "\<exists>n. streamSSEResponse newToolId chunks
        = [MessageStart n,
           ContentBlockStart 0 TextContent,
           ContentBlockDelta 0 (TextDelta ''[No response received from API]''),
           ContentBlockStop 0,
           MessageDelta (finalStopReason ''end_turn'' chunks) (finalOutputTokens 0 chunks),
           MessageStop]" if "\<forall>c \<in> set chunks. parts c = []"
  proof -
    from processChunks_no_parts[OF that, of newToolId initialStreamState] p
    have "ev = []" "\<not> hasEmittedStart s" by (simp_all add: initialStreamState_def)
    then show ?thesis by (simp add: streamSSEResponse_def p finishStream_def fin)
  qed
  show ?thesis using streamSSEResponse_grammar tail empty by blast
qed

text \<open>
  The thinking scenario: two thought parts, the second with a signature of 50
  characters, and a text part, then a line with the finish reason \<open>STOP\<close>.
\<close>

lemma thinking_scenario_events:
  "streamSSEResponse ''toolu_0''
     [\<lparr>usage = None,
       parts = [samplePart True (Some ''planning'') None,
                samplePart True (Some '' more'') (Some (replicate 50 CHR ''s'')),
                samplePart False (Some ''answer'') None],
       finishReason = None\<rparr>,
      \<lparr>usage = None, parts = [], finishReason = Some ''STOP''\<rparr>]
   = [MessageStart 0,
      ContentBlockStart 0 ThinkingContent,
      ContentBlockDelta 0 (ThinkingDelta ''planning''),
      ContentBlockDelta 0 (ThinkingDelta '' more''),
      ContentBlockDelta 0 (SignatureDelta (replicate 50 CHR ''s'')),
      ContentBlockStop 0,
      ContentBlockStart 1 TextContent,
      ContentBlockDelta 1 (TextDelta ''answer''),
      ContentBlockStop 1,
      MessageDelta ''end_turn'' 0,
      MessageStop]"
  by code_simp

text \<open>
  Witness for claim C7: the theorem on a stream whose only line has no parts (the placeholder), and on the
  thinking scenario, whose events match the grammar.
\<close>

theorem streamSSEResponse_event_order_witness:
  "streamSSEResponse ''toolu_0'' [\<lparr>usage = None, parts = [], finishReason = Some ''STOP''\<rparr>]
     = [MessageStart 0,
        ContentBlockStart 0 TextContent,
        ContentBlockDelta 0 (TextDelta ''[No response received from API]''),
        ContentBlockStop 0,
        MessageDelta ''end_turn'' 0,
        MessageStop] \<and>
   matchesGrammar
     [MessageStart 0,
      ContentBlockStart 0 ThinkingContent,
      ContentBlockDelta 0 (ThinkingDelta ''planning''),
      ContentBlockDelta 0 (ThinkingDelta '' more''),
      ContentBlockDelta 0 (SignatureDelta (replicate 50 CHR ''s'')),
      ContentBlockStop 0,
      ContentBlockStart 1 TextContent,
      ContentBlockDelta 1 (TextDelta ''answer''),
      ContentBlockStop 1,
      MessageDelta ''end_turn'' 0,
      MessageStop]"
proof -
  let ?cs = "[\<lparr>usage = None, parts = [], finishReason = Some ''STOP''\<rparr>]"
  have h: "\<forall>c \<in> set ?cs. parts c = []" by simp
  from streamSSEResponse_event_order[of "''toolu_0''" ?cs] h
  obtain n where n: "streamSSEResponse ''toolu_0'' ?cs
        = [MessageStart n,
           ContentBlockStart 0 TextContent,
           ContentBlockDelta 0 (TextDelta ''[No response received from API]''),
           ContentBlockStop 0,
           MessageDelta (finalStopReason ''end_turn'' ?cs) (finalOutputTokens 0 ?cs),
           MessageStop]" by blast
  have "hd (streamSSEResponse ''toolu_0'' ?cs) = MessageStart 0"
    by (simp add: streamSSEResponse_def processChunk_def initialStreamState_def finishStream_def)
  with n have n0: "n = 0" by simp
  have a: "streamSSEResponse ''toolu_0'' ?cs
     = [MessageStart 0,
        ContentBlockStart 0 TextContent,
        ContentBlockDelta 0 (TextDelta ''[No response received from API]''),
        ContentBlockStop 0,
        MessageDelta ''end_turn'' 0,
        MessageStop]"
    using n n0 by simp
  have b: "matchesGrammar (streamSSEResponse ''toolu_0''
     [\<lparr>usage = None,
       parts = [samplePart True (Some ''planning'') None,
                samplePart True (Some '' more'') (Some (replicate 50 CHR ''s'')),
                samplePart False (Some ''answer'') None],
       finishReason = None\<rparr>,
      \<lparr>usage = None, parts = [], finishReason = Some ''STOP''\<rparr>])"
    using streamSSEResponse_event_order by blast
  show ?thesis using a b by (simp only: thinking_scenario_events simp_thms)
qed

end
